theory Spec2Isabelle
  imports Main
begin

section \<open>Errors\<close>

text \<open>
  Every \<^verbatim>\<open>throw\<close> and every rejected promise of the source is a value of \<open>exn\<close>;
  a computation that may raise returns \<open>exn + 'a\<close> with \<open>Inl\<close> for the exception.
\<close>

datatype exn =
    NoAvailablePorts int int
  | RangeError int
  | FsError string
  | SyntaxError
  | TypeError
  | ProviderError string

section \<open>Port allocator\<close>

text \<open>
  Port numbers are the integers among the values of the source's \<^verbatim>\<open>number\<close>; bounds
  that are not integers are outside this model.
\<close>

definition PORT_RANGE_START :: int where
  "PORT_RANGE_START = 3000"

definition PORT_RANGE_END :: int where
  "PORT_RANGE_END = 3100"

text \<open>
  The outcome of \<^verbatim>\<open>server.listen(port, "127.0.0.1")\<close> on a fresh \<^verbatim>\<open>net.Server\<close>, for a
  port number the runtime accepts: the server emits either \<^verbatim>\<open>listening\<close> or
  \<^verbatim>\<open>error\<close>. Which one is decided by the operating system, so the loopback interface
  is a parameter of the model.
\<close>

datatype bind_result = Listening | BindError

type_synonym loopback = "int \<Rightarrow> bind_result"

text \<open>
  \<^verbatim>\<open>server.listen\<close> first validates the port: outside 0 to 65535 it throws
  \<^verbatim>\<open>ERR_SOCKET_BAD_PORT\<close>, a \<^verbatim>\<open>RangeError\<close>, before anything is bound.
\<close>

definition valid_port :: "int \<Rightarrow> bool" where
  "valid_port port = (0 \<le> port \<and> port \<le> 65535)"

text \<open>
  \<^verbatim>\<open>isPortAvailable\<close>: the promise resolves \<open>False\<close> on the \<^verbatim>\<open>error\<close> event and
  \<open>True\<close> on \<^verbatim>\<open>listening\<close>. The call of \<^verbatim>\<open>server.listen\<close> sits in the executor of
  the promise, so when it throws the promise is rejected.
\<close>

definition isPortAvailable :: "loopback \<Rightarrow> int \<Rightarrow> exn + bool" where
  "isPortAvailable net port =
     (if \<not> valid_port port then Inl (RangeError port)
      else Inr (case net port of BindError \<Rightarrow> False | Listening \<Rightarrow> True))"

text \<open>
  The \<^verbatim>\<open>for (let port = startPort; port <= endPort; port++)\<close> loop of
  \<^verbatim>\<open>findAvailablePort\<close>: \<open>Inr None\<close> is falling out of the loop, \<open>Inl\<close> a rejected
  \<^verbatim>\<open>await isPortAvailable(port)\<close>, which nothing in the loop catches.
\<close>

function findAvailablePort_loop :: "loopback \<Rightarrow> int \<Rightarrow> int \<Rightarrow> exn + int option" where
  "findAvailablePort_loop net port endPort =
     (if port \<le> endPort
      then (case isPortAvailable net port of
              Inl e \<Rightarrow> Inl e
            | Inr available \<Rightarrow>
                if available then Inr (Some port)
                else findAvailablePort_loop net (port + 1) endPort)
      else Inr None)"
  by pat_completeness auto
termination
  by (relation "measure (\<lambda>(net, port, endPort). nat (endPort + 1 - port))") auto

declare findAvailablePort_loop.simps [simp del]

text \<open>Both parameters are optional in the source and default to the port range constants.\<close>

definition findAvailablePort :: "loopback \<Rightarrow> int option \<Rightarrow> int option \<Rightarrow> exn + int" where
  "findAvailablePort net startArg endArg =
     (let startPort = (case startArg of None \<Rightarrow> PORT_RANGE_START | Some p \<Rightarrow> p);
          endPort = (case endArg of None \<Rightarrow> PORT_RANGE_END | Some p \<Rightarrow> p)
      in case findAvailablePort_loop net startPort endPort of
           Inl e \<Rightarrow> Inl e
         | Inr (Some port) \<Rightarrow> Inr port
         | Inr None \<Rightarrow> Inl (NoAvailablePorts startPort endPort))"

section \<open>Platform path resolver\<close>

definition APP_NAME :: string where
  "APP_NAME = ''google-mcp''"

text \<open>
  A path is kept as the list of segments handed to \<^verbatim>\<open>path.join\<close>, so
  \<^verbatim>\<open>path.join(os.homedir(), ".config")\<close> is \<open>[homedir, ''.config'']\<close> and joining one more
  segment appends it. The separator and the normalisation done by \<^verbatim>\<open>path.join\<close> belong
  to the Node library and are not modelled.
\<close>

type_synonym path = "string list"

section \<open>Data model\<close>

text \<open>\<^verbatim>\<open>Auth.Credentials\<close>: every field is optional.\<close>

record tokens =
  access_token :: "string option"
  refresh_token :: "string option"
  expiry_date :: "int option"
  scope :: "string option"
  token_type :: "string option"
  id_token :: "string option"

text \<open>
  \<^verbatim>\<open>CredentialsFile\<close>. The interface declares the three inner fields as present, but the code
  tests them at run time (\<^verbatim>\<open>!client_id\<close>, \<^verbatim>\<open>redirect_uris?.[0]\<close>), so they are optional here.
\<close>

record client_block =
  client_id :: "string option"
  client_secret :: "string option"
  redirect_uris :: "string list option"

record credentials_file =
  installed :: "client_block option"
  web :: "client_block option"

text \<open>
  The part of \<^verbatim>\<open>Auth.OAuth2Client\<close> the module relies on: the constructor arguments and the
  token set bound by \<^verbatim>\<open>setCredentials\<close>.
\<close>

record oauth2client =
  clientId :: string
  clientSecret :: string
  redirectUri :: string
  credentials :: "tokens option"

definition new_OAuth2 :: "string \<Rightarrow> string \<Rightarrow> string \<Rightarrow> oauth2client" where
  "new_OAuth2 cid secret redirect =
     \<lparr>clientId = cid, clientSecret = secret, redirectUri = redirect, credentials = None\<rparr>"

definition setCredentials :: "oauth2client \<Rightarrow> tokens \<Rightarrow> oauth2client" where
  "setCredentials c t = c\<lparr>credentials := Some t\<rparr>"

text \<open>The fields of a \<^verbatim>\<open>GoogleOAuth\<close> object.\<close>

record session =
  oauth2Client :: "oauth2client option"
  isAuthenticated :: bool
  directoriesInitialized :: bool

section \<open>The environment of the process\<close>

record file_entry =
  content :: string
  fmode :: nat

datatype fs_call =
    MkdirSync path
  | ReadFileSync path
  | WriteFileSync path
  | UnlinkSync path

text \<open>The value of \<^verbatim>\<open>new URL(req.url, base)\<close> as far as the callback handler reads it.\<close>

record url =
  pathname :: string
  search_code :: "string option"

text \<open>
  Everything outside the \<^verbatim>\<open>GoogleOAuth\<close> object: the operating system (platform, home
  directory, environment variables, clock, file system, loopback interface), the JSON and
  URL parsers of the runtime, and the OAuth provider. \<open>fs_fault\<close> lets any file-system
  call raise (permissions, full disk, races); \<open>revoked\<close> records the revocation requests
  sent to the provider. The JSON parsers give \<open>Inl\<close> where \<^verbatim>\<open>JSON.parse\<close> throws and
  \<open>Inr None\<close> for the JSON text \<^verbatim>\<open>null\<close>; otherwise the value is read at the type
  the source asserts for it.
\<close>

record world =
  platform :: string
  homedir :: string
  env :: "string \<Rightarrow> string option"
  now :: int
  files :: "path \<Rightarrow> file_entry option"
  dirs :: "path \<Rightarrow> nat option"
  fs_fault :: "fs_call \<Rightarrow> bool"
  loopback_net :: loopback
  json_parse_credentials :: "string \<Rightarrow> exn + credentials_file option"
  json_parse_tokens :: "string \<Rightarrow> exn + tokens option"
  json_stringify_tokens :: "tokens \<Rightarrow> string"
  url_parse :: "string \<Rightarrow> exn + url"
  provider_exchange :: "oauth2client \<Rightarrow> string \<Rightarrow> exn + tokens"
  provider_refresh :: "string \<Rightarrow> exn + tokens"
  revoked :: "oauth2client list"

text \<open>JavaScript truthiness of an optional string: \<^verbatim>\<open>undefined\<close> and \<^verbatim>\<open>""\<close> are falsy.\<close>

definition truthy_str :: "string option \<Rightarrow> bool" where
  "truthy_str v = (case v of None \<Rightarrow> False | Some s \<Rightarrow> s \<noteq> [])"

text \<open>\<^verbatim>\<open>process.env.X || path.join(...)\<close>\<close>

definition env_or :: "string option \<Rightarrow> path \<Rightarrow> path" where
  "env_or v dflt = (case v of None \<Rightarrow> dflt | Some s \<Rightarrow> if s = [] then dflt else [s])"

definition getConfigDir :: "world \<Rightarrow> path" where
  "getConfigDir w =
     (if platform w = ''win32'' then
        (let appData = env_or (env w ''APPDATA'') [homedir w, ''AppData'', ''Roaming'']
         in appData @ [APP_NAME])
      else if platform w = ''darwin'' then
        (case env w ''XDG_CONFIG_HOME'' of
           Some v \<Rightarrow>
             if v \<noteq> [] then [v, APP_NAME]
             else [homedir w, ''Library'', ''Application Support'', APP_NAME]
         | None \<Rightarrow> [homedir w, ''Library'', ''Application Support'', APP_NAME])
      else
        (let xdgConfig = env_or (env w ''XDG_CONFIG_HOME'') [homedir w, ''.config'']
         in xdgConfig @ [APP_NAME]))"

definition getDataDir :: "world \<Rightarrow> path" where
  "getDataDir w =
     (if platform w = ''win32'' then
        (let appData = env_or (env w ''APPDATA'') [homedir w, ''AppData'', ''Roaming'']
         in appData @ [APP_NAME])
      else if platform w = ''darwin'' then
        (case env w ''XDG_DATA_HOME'' of
           Some v \<Rightarrow>
             if v \<noteq> [] then [v, APP_NAME]
             else [homedir w, ''Library'', ''Application Support'', APP_NAME]
         | None \<Rightarrow> [homedir w, ''Library'', ''Application Support'', APP_NAME])
      else
        (let xdgData = env_or (env w ''XDG_DATA_HOME'') [homedir w, ''.local'', ''share'']
         in xdgData @ [APP_NAME]))"

definition CREDENTIALS_PATH :: "world \<Rightarrow> path" where
  "CREDENTIALS_PATH w = getConfigDir w @ [''credentials.json'']"

definition TOKEN_PATH :: "world \<Rightarrow> path" where
  "TOKEN_PATH w = getDataDir w @ [''tokens.json'']"

section \<open>File-system calls\<close>

text \<open>
  The four \<^verbatim>\<open>fs\<close> calls of the module. A call raises when the environment makes it
  (\<open>fs_fault\<close>) and when the state of the file system forbids it: reading or unlinking
  something that is not a file, writing into a directory that does not exist or onto a
  directory, creating a directory where a file is. \<^verbatim>\<open>mkdirSync\<close> is always called with
  \<^verbatim>\<open>recursive: true\<close>, so an existing directory is no error; the ancestors it would create
  are not tracked. \<^verbatim>\<open>writeFileSync\<close> applies its mode only to a file it creates.
\<close>

definition mode_0700 :: nat where
  "mode_0700 = 448"

definition mode_0600 :: nat where
  "mode_0600 = 384"

definition existsSync :: "world \<Rightarrow> path \<Rightarrow> bool" where
  "existsSync w p = (files w p \<noteq> None \<or> dirs w p \<noteq> None)"

definition mkdirSync :: "world \<Rightarrow> path \<Rightarrow> nat \<Rightarrow> exn + world" where
  "mkdirSync w p m =
     (if fs_fault w (MkdirSync p) then Inl (FsError ''EACCES'')
      else if files w p \<noteq> None then Inl (FsError ''EEXIST'')
      else if dirs w p \<noteq> None then Inr w
      else Inr (w\<lparr>dirs := (dirs w)(p \<mapsto> m)\<rparr>))"

definition readFileSync :: "world \<Rightarrow> path \<Rightarrow> exn + string" where
  "readFileSync w p =
     (if fs_fault w (ReadFileSync p) then Inl (FsError ''EACCES'')
      else case files w p of
             None \<Rightarrow> Inl (FsError ''ENOENT'')
           | Some f \<Rightarrow> Inr (content f))"

definition writeFileSync :: "world \<Rightarrow> path \<Rightarrow> string \<Rightarrow> nat \<Rightarrow> exn + world" where
  "writeFileSync w p data m =
     (if fs_fault w (WriteFileSync p) then Inl (FsError ''EACCES'')
      else if dirs w (butlast p) = None then Inl (FsError ''ENOENT'')
      else if dirs w p \<noteq> None then Inl (FsError ''EISDIR'')
      else Inr (w\<lparr>files := (files w)(p \<mapsto>
             (case files w p of
                None \<Rightarrow> \<lparr>content = data, fmode = m\<rparr>
              | Some f \<Rightarrow> f\<lparr>content := data\<rparr>))\<rparr>))"

definition unlinkSync :: "world \<Rightarrow> path \<Rightarrow> exn + world" where
  "unlinkSync w p =
     (if fs_fault w (UnlinkSync p) then Inl (FsError ''EPERM'')
      else case files w p of
             None \<Rightarrow> Inl (FsError ''EISDIR'')
           | Some f \<Rightarrow> Inr (w\<lparr>files := (files w)(p := None)\<rparr>))"

section \<open>Credential store\<close>

text \<open>
  \<^verbatim>\<open>ensureDirectoriesExist\<close>: one \<^verbatim>\<open>try\<close> block around both directories, so a failure on
  the configuration directory skips the data directory, and the flag is set only when
  both steps went through.
\<close>

definition ensureDirectoriesExist :: "world \<Rightarrow> session \<Rightarrow> world \<times> session" where
  "ensureDirectoriesExist w s =
     (if directoriesInitialized s then (w, s)
      else
        (case (if \<not> existsSync w (getConfigDir w)
               then mkdirSync w (getConfigDir w) mode_0700 else Inr w) of
           Inl e \<Rightarrow> (w, s)
         | Inr w1 \<Rightarrow>
             (case (if \<not> existsSync w1 (getDataDir w1)
                    then mkdirSync w1 (getDataDir w1) mode_0700 else Inr w1) of
                Inl e \<Rightarrow> (w1, s)
              | Inr w2 \<Rightarrow> (w2, s\<lparr>directoriesInitialized := True\<rparr>))))"

text \<open>The constructor: the field initialisers, then \<^verbatim>\<open>ensureDirectoriesExist\<close>.\<close>

definition new_GoogleOAuth :: "world \<Rightarrow> world \<times> session" where
  "new_GoogleOAuth w =
     ensureDirectoriesExist w
       \<lparr>oauth2Client = None, isAuthenticated = False, directoriesInitialized = False\<rparr>"

definition loadCredentials :: "world \<Rightarrow> credentials_file option" where
  "loadCredentials w =
     (if truthy_str (env w ''GOOGLE_CREDENTIALS_JSON'') then
        (case env w ''GOOGLE_CREDENTIALS_JSON'' of
           None \<Rightarrow> None
         | Some envCredentials \<Rightarrow>
             (case json_parse_credentials w envCredentials of
                Inl e \<Rightarrow> None
              | Inr c \<Rightarrow> c))
      else if existsSync w (CREDENTIALS_PATH w) then
        (case readFileSync w (CREDENTIALS_PATH w) of
           Inl e \<Rightarrow> None
         | Inr text \<Rightarrow>
             (case json_parse_credentials w text of
                Inl e \<Rightarrow> None
              | Inr c \<Rightarrow> c))
      else None)"

text \<open>
  \<^verbatim>\<open>saveTokens\<close> has no \<^verbatim>\<open>try\<close>: a failing write propagates to the caller, after the
  effects of \<^verbatim>\<open>ensureDirectoriesExist\<close>.
\<close>

definition saveTokens :: "world \<Rightarrow> session \<Rightarrow> tokens \<Rightarrow> (exn + unit) \<times> world \<times> session" where
  "saveTokens w s t =
     (if truthy_str (env w ''GOOGLE_TOKENS_JSON'') then (Inr (), w, s)
      else
        (case ensureDirectoriesExist w s of
           (w1, s1) \<Rightarrow>
             (case writeFileSync w1 (TOKEN_PATH w1) (json_stringify_tokens w1 t) mode_0600 of
                Inl e \<Rightarrow> (Inl e, w1, s1)
              | Inr w2 \<Rightarrow> (Inr (), w2, s1))))"

definition loadTokens :: "world \<Rightarrow> tokens option" where
  "loadTokens w =
     (if truthy_str (env w ''GOOGLE_TOKENS_JSON'') then
        (case env w ''GOOGLE_TOKENS_JSON'' of
           None \<Rightarrow> None
         | Some envTokens \<Rightarrow>
             (case json_parse_tokens w envTokens of
                Inl e \<Rightarrow> None
              | Inr t \<Rightarrow> t))
      else if existsSync w (TOKEN_PATH w) then
        (case readFileSync w (TOKEN_PATH w) of
           Inl e \<Rightarrow> None
         | Inr text \<Rightarrow>
             (case json_parse_tokens w text of
                Inl e \<Rightarrow> None
              | Inr t \<Rightarrow> t))
      else None)"

section \<open>OAuth session manager\<close>

definition SCOPES :: "string list" where
  "SCOPES =
     [''https://www.googleapis.com/auth/documents'',
      ''https://www.googleapis.com/auth/spreadsheets'',
      ''https://www.googleapis.com/auth/drive'',
      ''https://www.googleapis.com/auth/tasks'',
      ''https://www.googleapis.com/auth/calendar'',
      ''https://www.googleapis.com/auth/gmail.modify'',
      ''https://www.googleapis.com/auth/gmail.send'',
      ''https://www.googleapis.com/auth/contacts'',
      ''https://www.googleapis.com/auth/presentations'',
      ''https://www.googleapis.com/auth/youtube'',
      ''https://www.googleapis.com/auth/forms.body'',
      ''https://www.googleapis.com/auth/forms.responses.readonly'',
      ''https://www.googleapis.com/auth/chat.spaces'',
      ''https://www.googleapis.com/auth/chat.spaces.create'',
      ''https://www.googleapis.com/auth/chat.messages'',
      ''https://www.googleapis.com/auth/chat.messages.create'',
      ''https://www.googleapis.com/auth/chat.memberships'',
      ''https://www.googleapis.com/auth/meetings.space.created'',
      ''https://www.googleapis.com/auth/meetings.space.readonly'']"

text \<open>
  The authorization URL is kept as the record of its parameters; turning it into text is
  the provider library's work.
\<close>

record auth_url =
  au_client_id :: string
  au_redirect_uri :: string
  au_access_type :: string
  au_scope :: "string list"
  au_prompt :: string

definition generateAuthUrl :: "oauth2client \<Rightarrow> auth_url" where
  "generateAuthUrl c =
     \<lparr>au_client_id = clientId c, au_redirect_uri = redirectUri c,
      au_access_type = ''offline'', au_scope = SCOPES, au_prompt = ''consent''\<rparr>"

text \<open>\<^verbatim>\<open>oauth2Client.getToken(code)\<close>: the provider decides.\<close>

definition getToken :: "world \<Rightarrow> oauth2client \<Rightarrow> string \<Rightarrow> exn + tokens" where
  "getToken w c code = provider_exchange w c code"

text \<open>
  Modelled from the spec: \<^verbatim>\<open>oauth2Client.refreshAccessToken()\<close> belongs to the provider
  library, which is not part of the sources. The spec has the refresh use the refresh
  token of the bound token set and lists a missing refresh token among its failures;
  with a refresh token, the provider decides.
\<close>

definition refreshAccessToken :: "world \<Rightarrow> oauth2client \<Rightarrow> exn + tokens" where
  "refreshAccessToken w c =
     (case credentials c of
        None \<Rightarrow> Inl (ProviderError ''No refresh token is set.'')
      | Some t \<Rightarrow>
          (case refresh_token t of
             None \<Rightarrow> Inl (ProviderError ''No refresh token is set.'')
           | Some r \<Rightarrow>
               if r = [] then Inl (ProviderError ''No refresh token is set.'')
               else provider_refresh w r))"

text \<open>\<^verbatim>\<open>credentials.installed || credentials.web || {}\<close>\<close>

definition client_block_of :: "credentials_file \<Rightarrow> client_block" where
  "client_block_of c =
     (case installed c of
        Some b \<Rightarrow> b
      | None \<Rightarrow>
          (case web c of
             Some b \<Rightarrow> b
           | None \<Rightarrow> \<lparr>client_id = None, client_secret = None, redirect_uris = None\<rparr>))"

text \<open>
  The test \<^verbatim>\<open>!client_id || !client_secret\<close>: \<open>None\<close> when it rejects the block, the two
  strings otherwise.
\<close>

definition client_pair :: "client_block \<Rightarrow> (string \<times> string) option" where
  "client_pair b =
     (case client_id b of
        None \<Rightarrow> None
      | Some cid \<Rightarrow>
          if cid = [] then None
          else (case client_secret b of
                  None \<Rightarrow> None
                | Some secret \<Rightarrow> if secret = [] then None else Some (cid, secret)))"

definition DEFAULT_REDIRECT :: string where
  "DEFAULT_REDIRECT = ''http://localhost:3000/oauth2callback''"

text \<open>\<^verbatim>\<open>redirect_uris?.[0] || "http://localhost:3000/oauth2callback"\<close>\<close>

definition first_redirect :: "string list option \<Rightarrow> string" where
  "first_redirect uris =
     (case uris of
        None \<Rightarrow> DEFAULT_REDIRECT
      | Some [] \<Rightarrow> DEFAULT_REDIRECT
      | Some (u # rest) \<Rightarrow> if u = [] then DEFAULT_REDIRECT else u)"

text \<open>
  \<^verbatim>\<open>tokens.expiry_date && tokens.expiry_date < Date.now()\<close>: an expiry that is
  \<^verbatim>\<open>undefined\<close>, \<^verbatim>\<open>null\<close> or \<^verbatim>\<open>0\<close> is falsy and asks for no refresh.
\<close>

definition needs_refresh :: "tokens \<Rightarrow> int \<Rightarrow> bool" where
  "needs_refresh t n = (case expiry_date t of None \<Rightarrow> False | Some e \<Rightarrow> e \<noteq> 0 \<and> e < n)"

definition initialize :: "world \<Rightarrow> session \<Rightarrow> bool \<times> world \<times> session" where
  "initialize w s =
     (case loadCredentials w of
        None \<Rightarrow> (False, w, s)
      | Some creds \<Rightarrow>
          (case client_pair (client_block_of creds) of
             None \<Rightarrow> (False, w, s)
           | Some (cid, secret) \<Rightarrow>
               (let c = new_OAuth2 cid secret (first_redirect (redirect_uris (client_block_of creds)));
                    s1 = s\<lparr>oauth2Client := Some c\<rparr>
                in case loadTokens w of
                     None \<Rightarrow> (False, w, s1)
                   | Some t \<Rightarrow>
                       (let c1 = setCredentials c t;
                            s2 = s1\<lparr>oauth2Client := Some c1\<rparr>
                        in if needs_refresh t (now w) then
                             (case refreshAccessToken w c1 of
                                Inl e \<Rightarrow> (False, w, s2\<lparr>isAuthenticated := False\<rparr>)
                              | Inr newTokens \<Rightarrow>
                                  (case saveTokens w s2 newTokens of
                                     (Inl e, w1, s3) \<Rightarrow> (False, w1, s3\<lparr>isAuthenticated := False\<rparr>)
                                   | (Inr u, w1, s3) \<Rightarrow>
                                       (True, w1,
                                        s3\<lparr>oauth2Client := Some (setCredentials c1 newTokens),
                                           isAuthenticated := True\<rparr>)))
                           else (True, w, s2\<lparr>isAuthenticated := True\<rparr>)))))"

definition getClient :: "session \<Rightarrow> oauth2client option" where
  "getClient s = oauth2Client s"

definition isReady :: "session \<Rightarrow> bool" where
  "isReady s = (isAuthenticated s \<and> oauth2Client s \<noteq> None)"

definition getAuthUrl :: "session \<Rightarrow> auth_url option" where
  "getAuthUrl s = (case oauth2Client s of None \<Rightarrow> None | Some c \<Rightarrow> Some (generateAuthUrl c))"

definition setAuthCode :: "world \<Rightarrow> session \<Rightarrow> string \<Rightarrow> bool \<times> world \<times> session" where
  "setAuthCode w s code =
     (case (if oauth2Client s = None
            then (case initialize w s of (initialized, w1, s1) \<Rightarrow> (w1, s1))
            else (w, s)) of
        (w1, s1) \<Rightarrow>
          (case oauth2Client s1 of
             None \<Rightarrow> (False, w1, s1)
           | Some c \<Rightarrow>
               (case getToken w1 c code of
                  Inl e \<Rightarrow> (False, w1, s1)
                | Inr t \<Rightarrow>
                    (case saveTokens w1 (s1\<lparr>oauth2Client := Some (setCredentials c t)\<rparr>) t of
                       (Inl e, w2, s2) \<Rightarrow> (False, w2, s2)
                     | (Inr u, w2, s2) \<Rightarrow> (True, w2, s2\<lparr>isAuthenticated := True\<rparr>)))))"

text \<open>
  \<^verbatim>\<open>logout\<close> has no \<^verbatim>\<open>try\<close>: when \<^verbatim>\<open>unlinkSync\<close> raises, the statements after it do
  not run and the returned promise is rejected. The revocation is started and not
  awaited (\<^verbatim>\<open>void\<close>), so its outcome never reaches the caller.
\<close>

definition logout :: "world \<Rightarrow> session \<Rightarrow> (exn + unit) \<times> world \<times> session" where
  "logout w s =
     (case (if existsSync w (TOKEN_PATH w) then unlinkSync w (TOKEN_PATH w) else Inr w) of
        Inl e \<Rightarrow> (Inl e, w, s)
      | Inr w1 \<Rightarrow>
          (let s1 = s\<lparr>isAuthenticated := False\<rparr>
           in case oauth2Client s1 of
                None \<Rightarrow> (Inr (), w1, s1)
              | Some c \<Rightarrow> (Inr (), w1\<lparr>revoked := revoked w1 @ [c]\<rparr>, s1)))"

section \<open>The interactive flow\<close>

text \<open>
  The promise created by \<^verbatim>\<open>authenticate\<close> together with everything its callbacks close
  over. \<open>result\<close> is the settled value of the promise (\<open>None\<close> while pending);
  \<open>listener\<close> is the state of the HTTP server; \<open>responses\<close> are the status codes written so
  far; \<open>awaiting\<close> holds the outcomes of the \<^verbatim>\<open>getToken\<close> calls whose \<^verbatim>\<open>await\<close> has not
  resumed yet.
\<close>

datatype listener_state = Binding | Open | Closed

record flow =
  fworld :: world
  fsession :: session
  fport :: int
  fauthUrl :: auth_url
  listener :: listener_state
  result :: "bool option"
  responses :: "nat list"
  awaiting :: "(exn + tokens) list"
  browser_opened :: bool

text \<open>What the event loop can deliver to the flow.\<close>

datatype event =
    ListeningEv
  | RequestEv string
  | ExchangeSettledEv nat
  | ServerErrorEv
  | TimeoutEv

text \<open>A promise settles once: later calls of \<^verbatim>\<open>resolve\<close> have no effect.\<close>

definition resolve :: "bool \<Rightarrow> flow \<Rightarrow> flow" where
  "resolve b fl = (case result fl of None \<Rightarrow> fl\<lparr>result := Some b\<rparr> | Some r \<Rightarrow> fl)"

definition server_close :: "flow \<Rightarrow> flow" where
  "server_close fl = fl\<lparr>listener := Closed\<rparr>"

definition respond :: "nat \<Rightarrow> flow \<Rightarrow> flow" where
  "respond status fl = fl\<lparr>responses := responses fl @ [status]\<rparr>"

text \<open>The \<^verbatim>\<open>catch\<close> block of the request handler.\<close>

definition callback_error :: "flow \<Rightarrow> flow" where
  "callback_error fl = resolve False (server_close (respond 500 fl))"

text \<open>The request handler up to its \<^verbatim>\<open>await\<close>.\<close>

definition on_request :: "flow \<Rightarrow> string \<Rightarrow> flow" where
  "on_request fl reqUrl =
     (case url_parse (fworld fl) reqUrl of
        Inl e \<Rightarrow> callback_error fl
      | Inr u \<Rightarrow>
          if pathname u = ''/oauth2callback'' then
            (case search_code u of
               None \<Rightarrow> resolve False (server_close (respond 400 fl))
             | Some code \<Rightarrow>
                 if code = [] then resolve False (server_close (respond 400 fl))
                 else (case oauth2Client (fsession fl) of
                         None \<Rightarrow> callback_error fl
                       | Some c \<Rightarrow>
                           fl\<lparr>awaiting := awaiting fl @ [getToken (fworld fl) c code]\<rparr>))
          else fl)"

text \<open>The request handler from its \<^verbatim>\<open>await\<close> on, for the \<open>i\<close>-th pending exchange.\<close>

definition on_exchange_settled :: "flow \<Rightarrow> nat \<Rightarrow> flow" where
  "on_exchange_settled fl i =
     (if i < length (awaiting fl) then
        (let fl1 = fl\<lparr>awaiting := take i (awaiting fl) @ drop (Suc i) (awaiting fl)\<rparr>
         in case awaiting fl ! i of
              Inl e \<Rightarrow> callback_error fl1
            | Inr t \<Rightarrow>
                (case oauth2Client (fsession fl1) of
                   None \<Rightarrow> callback_error fl1
                 | Some c \<Rightarrow>
                     (case saveTokens (fworld fl1)
                             ((fsession fl1)\<lparr>oauth2Client := Some (setCredentials c t)\<rparr>) t of
                        (Inl e, w2, s2) \<Rightarrow> callback_error (fl1\<lparr>fworld := w2, fsession := s2\<rparr>)
                      | (Inr u, w2, s2) \<Rightarrow>
                          resolve True (server_close (respond 200
                            (fl1\<lparr>fworld := w2, fsession := s2\<lparr>isAuthenticated := True\<rparr>\<rparr>))))))
      else fl)"

text \<open>The callback of \<^verbatim>\<open>server.listen\<close>: it logs and opens the browser.\<close>

definition on_listening :: "flow \<Rightarrow> flow" where
  "on_listening fl =
     fl\<lparr>listener := (if listener fl = Binding then Open else listener fl),
        browser_opened := True\<rparr>"

text \<open>The \<^verbatim>\<open>error\<close> handler of the server.\<close>

definition on_server_error :: "flow \<Rightarrow> flow" where
  "on_server_error fl = resolve False fl"

text \<open>The body of the five-minute timer.\<close>

definition on_timeout :: "flow \<Rightarrow> flow" where
  "on_timeout fl =
     (if \<not> isAuthenticated (fsession fl) then resolve False (server_close fl) else fl)"

fun step :: "flow \<Rightarrow> event \<Rightarrow> flow" where
  "step fl ListeningEv = on_listening fl"
| "step fl (RequestEv reqUrl) = on_request fl reqUrl"
| "step fl (ExchangeSettledEv i) = on_exchange_settled fl i"
| "step fl ServerErrorEv = on_server_error fl"
| "step fl TimeoutEv = on_timeout fl"

definition run :: "flow \<Rightarrow> event list \<Rightarrow> flow" where
  "run fl evs = foldl step fl evs"

text \<open>
  What a call of \<^verbatim>\<open>authenticate\<close> gives before any event is delivered: a promise that
  is already settled, a rejected one, or the pending flow.
\<close>

datatype auth_outcome =
    Returned bool world session
  | Rejected exn world session
  | Awaiting flow

function string_of_nat :: "nat \<Rightarrow> string" where
  "string_of_nat n =
     (if n < 10 then [char_of (48 + n)]
      else string_of_nat (n div 10) @ [char_of (48 + n mod 10)])"
  by pat_completeness auto
termination
  by (relation "measure id") auto

declare string_of_nat.simps [simp del]

text \<open>The text of a number in a template string.\<close>

definition string_of_int :: "int \<Rightarrow> string" where
  "string_of_int i =
     (if i < 0 then CHR ''-'' # string_of_nat (nat (- i)) else string_of_nat (nat i))"

text \<open>The executor of the promise: build the URL, create the server, listen, set the timer.\<close>

definition start_flow :: "world \<Rightarrow> session \<Rightarrow> int \<Rightarrow> auth_outcome" where
  "start_flow w s p =
     (case oauth2Client s of
        None \<Rightarrow> Rejected TypeError w s
      | Some c \<Rightarrow>
          Awaiting \<lparr>fworld = w, fsession = s, fport = p, fauthUrl = generateAuthUrl c,
                    listener = Binding, result = None, responses = [], awaiting = [],
                    browser_opened = False\<rparr>)"

definition authenticate :: "world \<Rightarrow> session \<Rightarrow> auth_outcome" where
  "authenticate w s =
     (case (if oauth2Client s = None
            then (case initialize w s of
                    (initialized, w1, s1) \<Rightarrow> (\<not> initialized \<and> oauth2Client s1 = None, w1, s1))
            else (False, w, s)) of
        (giveUp, w1, s1) \<Rightarrow>
          if giveUp then Returned False w1 s1
          else if isAuthenticated s1 then Returned True w1 s1
          else
            (case findAvailablePort (loopback_net w1) None None of
               Inl e \<Rightarrow> Returned False w1 s1
             | Inr p \<Rightarrow>
                 (let redirect = ''http://localhost:'' @ string_of_int p @ ''/oauth2callback'';
                      s2 = (case loadCredentials w1 of
                              None \<Rightarrow> s1
                            | Some creds \<Rightarrow>
                                (case client_pair (client_block_of creds) of
                                   None \<Rightarrow> s1
                                 | Some (cid, secret) \<Rightarrow>
                                     s1\<lparr>oauth2Client := Some (new_OAuth2 cid secret redirect)\<rparr>))
                  in start_flow w1 s2 p)))"

definition initializeWithAuth :: "world \<Rightarrow> session \<Rightarrow> auth_outcome" where
  "initializeWithAuth w s =
     (case initialize w s of
        (initialized, w1, s1) \<Rightarrow>
          if initialized \<and> isAuthenticated s1 then Returned True w1 s1
          else if oauth2Client s1 \<noteq> None then authenticate w1 s1
          else Returned False w1 s1)"

text \<open>
  The invariant behind the guard of the timer: the flag \<^verbatim>\<open>isAuthenticated\<close> is never
  set on a flow whose promise is still pending.
\<close>

definition settled_if_authenticated :: "flow \<Rightarrow> bool" where
  "settled_if_authenticated fl = (\<not> (isAuthenticated (fsession fl) \<and> result fl = None))"

section \<open>Concrete scenarios\<close>

definition sample_credentials :: credentials_file where
  "sample_credentials =
     \<lparr>installed = Some \<lparr>client_id = Some ''id'', client_secret = Some ''secret'',
                         redirect_uris = Some [''http://localhost:3000/oauth2callback'']\<rparr>,
      web = None\<rparr>"

definition sample_tokens :: tokens where
  "sample_tokens =
     \<lparr>access_token = Some ''token'', refresh_token = Some ''refresh'', expiry_date = Some 1,
      scope = None, token_type = Some ''Bearer'', id_token = None\<rparr>"

definition linux_config_dir :: path where
  "linux_config_dir = [''/home/user'', ''.config'', ''google-mcp'']"

definition linux_data_dir :: path where
  "linux_data_dir = [''/home/user'', ''.local'', ''share'', ''google-mcp'']"

definition base_world :: world where
  "base_world =
     \<lparr>platform = ''linux'', homedir = ''/home/user'', env = (\<lambda>k. None), now = 1000,
      files = [linux_config_dir @ [''credentials.json''] \<mapsto>
                 \<lparr>content = ''<credentials.json>'', fmode = 384\<rparr>],
      dirs = [linux_config_dir \<mapsto> 448, linux_data_dir \<mapsto> 448],
      fs_fault = (\<lambda>c. False),
      loopback_net = (\<lambda>p. Listening),
      json_parse_credentials =
        (\<lambda>text. if text = ''<credentials.json>'' then Inr (Some sample_credentials)
                else Inl SyntaxError),
      json_parse_tokens =
        (\<lambda>text. if text = ''<tokens.json>'' then Inr (Some sample_tokens) else Inl SyntaxError),
      json_stringify_tokens = (\<lambda>t. if t = sample_tokens then ''<tokens.json>'' else ''<other>''),
      url_parse =
        (\<lambda>u. if u = ''/oauth2callback?code=abc''
              then Inr \<lparr>pathname = ''/oauth2callback'', search_code = Some ''abc''\<rparr>
              else if u = ''/favicon.ico''
              then Inr \<lparr>pathname = ''/favicon.ico'', search_code = None\<rparr>
              else Inl TypeError),
      provider_exchange =
        (\<lambda>c code. if code = ''abc'' then Inr sample_tokens
                   else Inl (ProviderError ''invalid_grant'')),
      provider_refresh = (\<lambda>r. Inl (ProviderError ''invalid_grant'')),
      revoked = []\<rparr>"

definition fresh_session :: session where
  "fresh_session = \<lparr>oauth2Client = None, isAuthenticated = False, directoriesInitialized = False\<rparr>"

text \<open>The object as the constructor leaves it on a host whose directories exist.\<close>

definition constructed_session :: session where
  "constructed_session =
     \<lparr>oauth2Client = None, isAuthenticated = False, directoriesInitialized = True\<rparr>"

definition with_token_file :: "world \<Rightarrow> world" where
  "with_token_file w =
     w\<lparr>files := (files w)(linux_data_dir @ [''tokens.json''] \<mapsto>
                   \<lparr>content = ''<tokens.json>'', fmode = 384\<rparr>)\<rparr>"

definition mac_world_empty_xdg :: world where
  "mac_world_empty_xdg =
     base_world\<lparr>platform := ''darwin'', homedir := ''/Users/user'',
                env := (\<lambda>k. if k = ''XDG_CONFIG_HOME'' then Some [] else None)\<rparr>"

definition windows_world :: world where
  "windows_world =
     base_world\<lparr>platform := ''win32'', homedir := ''C:/Users/user'',
                env := (\<lambda>k. if k = ''APPDATA'' then Some ''C:/Users/user/AppData/Roaming'' else None)\<rparr>"

definition xdg_world :: world where
  "xdg_world =
     base_world\<lparr>env := (\<lambda>k. if k = ''XDG_CONFIG_HOME'' then Some ''/cfg''
                          else if k = ''XDG_DATA_HOME'' then Some ''/data'' else None)\<rparr>"

definition empty_env_world :: world where
  "empty_env_world =
     with_token_file
       (base_world\<lparr>env := (\<lambda>k. if k = ''GOOGLE_CREDENTIALS_JSON'' \<or> k = ''GOOGLE_TOKENS_JSON''
                                 then Some [] else None)\<rparr>)"

definition bad_env_world :: world where
  "bad_env_world =
     with_token_file
       (base_world\<lparr>env := (\<lambda>k. if k = ''GOOGLE_CREDENTIALS_JSON'' \<or> k = ''GOOGLE_TOKENS_JSON''
                                 then Some ''{not json'' else None)\<rparr>)"

definition empty_tokens_var_world :: world where
  "empty_tokens_var_world =
     base_world\<lparr>env := (\<lambda>k. if k = ''GOOGLE_TOKENS_JSON'' then Some [] else None)\<rparr>"

definition no_data_dir_world :: world where
  "no_data_dir_world = base_world\<lparr>dirs := [linux_config_dir \<mapsto> 448]\<rparr>"

definition bare_world :: world where
  "bare_world = base_world\<lparr>files := Map.empty, dirs := Map.empty\<rparr>"

definition expired_world :: world where
  "expired_world = with_token_file base_world"

definition stale_tokens :: tokens where
  "stale_tokens =
     \<lparr>access_token = Some ''token'', refresh_token = None, expiry_date = Some 0,
      scope = None, token_type = Some ''Bearer'', id_token = None\<rparr>"

definition zero_expiry_world :: world where
  "zero_expiry_world =
     (with_token_file base_world)
       \<lparr>json_parse_tokens :=
          (\<lambda>text. if text = ''<tokens.json>'' then Inr (Some stale_tokens) else Inl SyntaxError)\<rparr>"

definition no_refresh_world :: world where
  "no_refresh_world =
     (with_token_file base_world)
       \<lparr>json_parse_tokens :=
          (\<lambda>text. if text = ''<tokens.json>'' then Inr (Some (sample_tokens\<lparr>refresh_token := None\<rparr>))
                  else Inl SyntaxError),
        provider_refresh := (\<lambda>r. Inr sample_tokens)\<rparr>"

definition locked_token_world :: world where
  "locked_token_world =
     (with_token_file base_world)
       \<lparr>now := 0,
        fs_fault := (\<lambda>c. c = UnlinkSync (linux_data_dir @ [''tokens.json'']))\<rparr>"

section \<open>Properties of the port allocator\<close>

lemma findAvailablePort_loop_done:
  "\<not> port \<le> endPort \<Longrightarrow> findAvailablePort_loop net port endPort = Inr None"
  by (subst findAvailablePort_loop.simps) simp

lemma findAvailablePort_loop_throw:
  "port \<le> endPort \<Longrightarrow> isPortAvailable net port = Inl x \<Longrightarrow>
   findAvailablePort_loop net port endPort = Inl x"
  by (subst findAvailablePort_loop.simps) simp

lemma findAvailablePort_loop_hit:
  "port \<le> endPort \<Longrightarrow> isPortAvailable net port = Inr True \<Longrightarrow>
   findAvailablePort_loop net port endPort = Inr (Some port)"
  by (subst findAvailablePort_loop.simps) simp

lemma findAvailablePort_loop_next:
  "port \<le> endPort \<Longrightarrow> isPortAvailable net port = Inr False \<Longrightarrow>
   findAvailablePort_loop net port endPort = findAvailablePort_loop net (port + 1) endPort"
  by (subst findAvailablePort_loop.simps) simp

text \<open>
  What the scan returns, by the first port of the range whose probe is not \<open>False\<close>:
  that port if its probe is \<open>True\<close>, the exception if its probe throws, and \<open>None\<close> if
  there is no such port.
\<close>

lemma findAvailablePort_loop_Some:
  "findAvailablePort_loop net s e = Inr (Some p) \<longleftrightarrow>
     s \<le> p \<and> p \<le> e \<and> isPortAvailable net p = Inr True \<and>
     (\<forall>q. s \<le> q \<and> q < p \<longrightarrow> isPortAvailable net q = Inr False)"
proof (induction net s e rule: findAvailablePort_loop.induct)
  case (1 net port endPort)
  let ?R = "\<lambda>s. s \<le> p \<and> p \<le> endPort \<and> isPortAvailable net p = Inr True \<and>
     (\<forall>q. s \<le> q \<and> q < p \<longrightarrow> isPortAvailable net q = Inr False)"
  show ?case
  proof (cases "port \<le> endPort")
    case False
    then have "\<not> ?R port" by auto
    then show ?thesis using findAvailablePort_loop_done [OF False] by simp
  next
    case True
    show ?thesis
    proof (cases "isPortAvailable net port")
      case (Inl x)
      have "\<not> ?R port"
      proof
        assume r: "?R port"
        show False
        proof (cases "p = port")
          case True
          with r Inl show False by simp
        next
          case False
          with r have "port \<le> port \<and> port < p" by simp
          with r have "isPortAvailable net port = Inr False" by blast
          with Inl show False by simp
        qed
      qed
      then show ?thesis using findAvailablePort_loop_throw [OF True Inl] by simp
    next
      case (Inr b)
      show ?thesis
      proof (cases b)
        case avail: True
        have "?R port \<longleftrightarrow> p = port"
        proof
          assume r: "?R port"
          show "p = port"
          proof (rule ccontr)
            assume "p \<noteq> port"
            with r have "port \<le> port \<and> port < p" by simp
            with r have "isPortAvailable net port = Inr False" by blast
            with Inr avail show False by simp
          qed
        next
          assume "p = port"
          then show "?R port" using True Inr avail by auto
        qed
        then show ?thesis
          using findAvailablePort_loop_hit [OF True] Inr avail by auto
      next
        case occupied: False
        have step: "findAvailablePort_loop net port endPort =
            findAvailablePort_loop net (port + 1) endPort"
          using findAvailablePort_loop_next [OF True] Inr occupied by simp
        have ih: "findAvailablePort_loop net (port + 1) endPort = Inr (Some p) \<longleftrightarrow> ?R (port + 1)"
          using "1.IH" [OF True Inr] occupied by simp
        have "?R (port + 1) \<longleftrightarrow> ?R port"
        proof
          assume r: "?R (port + 1)"
          have "isPortAvailable net q = Inr False" if "port \<le> q \<and> q < p" for q
          proof (cases "q = port")
            case True
            then show ?thesis using Inr occupied by simp
          next
            case False
            with that have "port + 1 \<le> q \<and> q < p" by simp
            with r show ?thesis by blast
          qed
          with r show "?R port" by simp
        next
          assume r: "?R port"
          have "p \<noteq> port" using r Inr occupied by auto
          with r have "port + 1 \<le> p" by simp
          moreover have "isPortAvailable net q = Inr False" if "port + 1 \<le> q \<and> q < p" for q
          proof -
            from that have "port \<le> q \<and> q < p" by simp
            with r show ?thesis by blast
          qed
          ultimately show "?R (port + 1)" using r by simp
        qed
        then show ?thesis using step ih by simp
      qed
    qed
  qed
qed

lemma findAvailablePort_loop_None:
  "findAvailablePort_loop net s e = Inr None \<longleftrightarrow>
     (\<forall>q. s \<le> q \<and> q \<le> e \<longrightarrow> isPortAvailable net q = Inr False)"
proof (induction net s e rule: findAvailablePort_loop.induct)
  case (1 net port endPort)
  let ?R = "\<lambda>s. \<forall>q. s \<le> q \<and> q \<le> endPort \<longrightarrow> isPortAvailable net q = Inr False"
  show ?case
  proof (cases "port \<le> endPort")
    case False
    then have "?R port" by auto
    then show ?thesis using findAvailablePort_loop_done [OF False] by simp
  next
    case True
    show ?thesis
    proof (cases "isPortAvailable net port")
      case (Inl x)
      have "\<not> ?R port"
      proof
        assume "?R port"
        with True have "isPortAvailable net port = Inr False" by simp
        with Inl show False by simp
      qed
      then show ?thesis using findAvailablePort_loop_throw [OF True Inl] by simp
    next
      case (Inr b)
      show ?thesis
      proof (cases b)
        case avail: True
        have "\<not> ?R port"
        proof
          assume "?R port"
          with True have "isPortAvailable net port = Inr False" by simp
          with Inr avail show False by simp
        qed
        then show ?thesis
          using findAvailablePort_loop_hit [OF True] Inr avail by simp
      next
        case occupied: False
        have step: "findAvailablePort_loop net port endPort =
            findAvailablePort_loop net (port + 1) endPort"
          using findAvailablePort_loop_next [OF True] Inr occupied by simp
        have ih: "findAvailablePort_loop net (port + 1) endPort = Inr None \<longleftrightarrow> ?R (port + 1)"
          using "1.IH" [OF True Inr] occupied by simp
        have "?R (port + 1) \<longleftrightarrow> ?R port"
        proof
          assume r: "?R (port + 1)"
          show "?R port"
          proof (intro allI impI)
            fix q
            assume q: "port \<le> q \<and> q \<le> endPort"
            show "isPortAvailable net q = Inr False"
            proof (cases "q = port")
              case True
              then show ?thesis using Inr occupied by simp
            next
              case False
              with q have "port + 1 \<le> q \<and> q \<le> endPort" by simp
              with r show ?thesis by blast
            qed
          qed
        next
          assume r: "?R port"
          show "?R (port + 1)"
          proof (intro allI impI)
            fix q
            assume "port + 1 \<le> q \<and> q \<le> endPort"
            then have "port \<le> q \<and> q \<le> endPort" by simp
            with r show "isPortAvailable net q = Inr False" by blast
          qed
        qed
        then show ?thesis using step ih by simp
      qed
    qed
  qed
qed

lemma findAvailablePort_loop_Inl:
  "findAvailablePort_loop net s e = Inl x \<longleftrightarrow>
     (\<exists>q. s \<le> q \<and> q \<le> e \<and> isPortAvailable net q = Inl x \<and>
          (\<forall>r. s \<le> r \<and> r < q \<longrightarrow> isPortAvailable net r = Inr False))"
proof (induction net s e rule: findAvailablePort_loop.induct)
  case (1 net port endPort)
  let ?R = "\<lambda>s. \<exists>q. s \<le> q \<and> q \<le> endPort \<and> isPortAvailable net q = Inl x \<and>
          (\<forall>r. s \<le> r \<and> r < q \<longrightarrow> isPortAvailable net r = Inr False)"
  show ?case
  proof (cases "port \<le> endPort")
    case False
    then have "\<not> ?R port" by auto
    then show ?thesis using findAvailablePort_loop_done [OF False] by simp
  next
    case True
    have first: "q = port"
      if "port \<le> q" "\<forall>r. port \<le> r \<and> r < q \<longrightarrow> isPortAvailable net r = Inr False"
        "isPortAvailable net port \<noteq> Inr False" for q
    proof (rule ccontr)
      assume "q \<noteq> port"
      with that(1) have "port \<le> port \<and> port < q" by simp
      with that(2) have "isPortAvailable net port = Inr False" by blast
      with that(3) show False by simp
    qed
    show ?thesis
    proof (cases "isPortAvailable net port")
      case (Inl x0)
      have "?R port \<longleftrightarrow> x = x0"
      proof
        assume "?R port"
        then obtain q where q: "port \<le> q" "isPortAvailable net q = Inl x"
          "\<forall>r. port \<le> r \<and> r < q \<longrightarrow> isPortAvailable net r = Inr False"
          by blast
        have "q = port" using first [OF q(1) q(3)] Inl by simp
        with q(2) Inl show "x = x0" by simp
      next
        assume "x = x0"
        with True Inl have "port \<le> port \<and> port \<le> endPort \<and> isPortAvailable net port = Inl x \<and>
          (\<forall>r. port \<le> r \<and> r < port \<longrightarrow> isPortAvailable net r = Inr False)"
          by auto
        then show "?R port" by blast
      qed
      then show ?thesis using findAvailablePort_loop_throw [OF True Inl] by auto
    next
      case (Inr b)
      show ?thesis
      proof (cases b)
        case avail: True
        have "\<not> ?R port"
        proof
          assume "?R port"
          then obtain q where q: "port \<le> q" "isPortAvailable net q = Inl x"
            "\<forall>r. port \<le> r \<and> r < q \<longrightarrow> isPortAvailable net r = Inr False"
            by blast
          have "q = port" using first [OF q(1) q(3)] Inr avail by simp
          with q(2) Inr show False by simp
        qed
        then show ?thesis
          using findAvailablePort_loop_hit [OF True] Inr avail by simp
      next
        case occupied: False
        have step: "findAvailablePort_loop net port endPort =
            findAvailablePort_loop net (port + 1) endPort"
          using findAvailablePort_loop_next [OF True] Inr occupied by simp
        have ih: "findAvailablePort_loop net (port + 1) endPort = Inl x \<longleftrightarrow> ?R (port + 1)"
          using "1.IH" [OF True Inr] occupied by simp
        have "?R (port + 1) \<longleftrightarrow> ?R port"
        proof
          assume "?R (port + 1)"
          then obtain q where q: "port + 1 \<le> q" "q \<le> endPort" "isPortAvailable net q = Inl x"
            "\<forall>r. port + 1 \<le> r \<and> r < q \<longrightarrow> isPortAvailable net r = Inr False"
            by blast
          have "isPortAvailable net r = Inr False" if "port \<le> r \<and> r < q" for r
          proof (cases "r = port")
            case True
            then show ?thesis using Inr occupied by simp
          next
            case False
            with that have "port + 1 \<le> r \<and> r < q" by simp
            with q(4) show ?thesis by blast
          qed
          with q have "port \<le> q \<and> q \<le> endPort \<and> isPortAvailable net q = Inl x \<and>
            (\<forall>r. port \<le> r \<and> r < q \<longrightarrow> isPortAvailable net r = Inr False)"
            by simp
          then show "?R port" by blast
        next
          assume "?R port"
          then obtain q where q: "port \<le> q" "q \<le> endPort" "isPortAvailable net q = Inl x"
            "\<forall>r. port \<le> r \<and> r < q \<longrightarrow> isPortAvailable net r = Inr False"
            by blast
          have "q \<noteq> port" using q(3) Inr by auto
          with q(1) have "port + 1 \<le> q" by simp
          moreover have "isPortAvailable net r = Inr False" if "port + 1 \<le> r \<and> r < q" for r
          proof -
            from that have "port \<le> r \<and> r < q" by simp
            with q(4) show ?thesis by blast
          qed
          ultimately have "port + 1 \<le> q \<and> q \<le> endPort \<and> isPortAvailable net q = Inl x \<and>
            (\<forall>r. port + 1 \<le> r \<and> r < q \<longrightarrow> isPortAvailable net r = Inr False)"
            using q by simp
          then show "?R (port + 1)" by blast
        qed
        then show ?thesis using step ih by simp
      qed
    qed
  qed
qed

lemma isPortAvailable_valid:
  "valid_port q \<Longrightarrow>
   isPortAvailable net q = Inr (case net q of BindError \<Rightarrow> False | Listening \<Rightarrow> True)"
  by (simp add: isPortAvailable_def)

lemma isPortAvailable_invalid:
  "isPortAvailable net q = Inl x \<longleftrightarrow> \<not> valid_port q \<and> x = RangeError q"
  by (auto simp: isPortAvailable_def)

text \<open>
  C5, as the code has it. On an inclusive range of port numbers the runtime accepts
  (0 to 65535), \<^verbatim>\<open>findAvailablePort\<close> scans upwards and returns the first port whose
  loopback probe succeeds: the port returned lies in the range, its probe succeeded and
  the probe of every smaller port of the range failed. There it fails, with the
  no-port-available error and no other, exactly when every port of the range is
  occupied. On any range, it fails with the runtime's bad-port error exactly when the
  scan reaches a number outside 0 to 65535 after nothing but occupied ports, and it
  never returns such a number. Without arguments the range is 3000 to 3100, which has
  101 ports.
\<close>

theorem findAvailablePort_first_free:
  "(0 \<le> s \<and> e \<le> 65535 \<longrightarrow>
      (findAvailablePort net (Some s) (Some e) = Inr p \<longleftrightarrow>
         s \<le> p \<and> p \<le> e \<and> net p = Listening \<and> (\<forall>q. s \<le> q \<and> q < p \<longrightarrow> net q = BindError))
      \<and> (findAvailablePort net (Some s) (Some e) = Inl (NoAvailablePorts s e) \<longleftrightarrow>
         (\<forall>q. s \<le> q \<and> q \<le> e \<longrightarrow> net q = BindError))
      \<and> (\<forall>x. findAvailablePort net (Some s) (Some e) = Inl x \<longrightarrow> x = NoAvailablePorts s e))
   \<and> (findAvailablePort net (Some s) (Some e) = Inl (RangeError b) \<longleftrightarrow>
         s \<le> b \<and> b \<le> e \<and> \<not> valid_port b \<and>
         (\<forall>q. s \<le> q \<and> q < b \<longrightarrow> valid_port q \<and> net q = BindError))
   \<and> (findAvailablePort net (Some s) (Some e) = Inr p \<longrightarrow> valid_port p)
   \<and> findAvailablePort net None None = findAvailablePort net (Some 3000) (Some 3100)
   \<and> card {PORT_RANGE_START .. PORT_RANGE_END} = 101"
proof -
  have occ: "isPortAvailable net q = Inr False \<longleftrightarrow> valid_port q \<and> net q = BindError" for q
    by (auto simp: isPortAvailable_def split: bind_result.splits)
  have free: "isPortAvailable net q = Inr True \<longleftrightarrow> valid_port q \<and> net q = Listening" for q
    by (auto simp: isPortAvailable_def split: bind_result.splits)
  have ret: "findAvailablePort net (Some s) (Some e) = Inr p \<longleftrightarrow>
      findAvailablePort_loop net s e = Inr (Some p)" for p
    by (auto simp: findAvailablePort_def split: sum.splits option.splits)
  have none: "findAvailablePort net (Some s) (Some e) = Inl (NoAvailablePorts s e) \<longleftrightarrow>
      findAvailablePort_loop net s e = Inr None"
    using findAvailablePort_loop_Inl [of net s e "NoAvailablePorts s e"]
    by (auto simp: findAvailablePort_def isPortAvailable_invalid split: sum.splits option.splits)
  have thrown: "findAvailablePort net (Some s) (Some e) = Inl (RangeError b) \<longleftrightarrow>
      findAvailablePort_loop net s e = Inl (RangeError b)" for b
    by (auto simp: findAvailablePort_def split: sum.splits option.splits)
  have R: "findAvailablePort net (Some s) (Some e) = Inl (RangeError b) \<longleftrightarrow>
         s \<le> b \<and> b \<le> e \<and> \<not> valid_port b \<and>
         (\<forall>q. s \<le> q \<and> q < b \<longrightarrow> valid_port q \<and> net q = BindError)"
  proof -
    have "findAvailablePort_loop net s e = Inl (RangeError b) \<longleftrightarrow>
        (\<exists>q. s \<le> q \<and> q \<le> e \<and> (\<not> valid_port q \<and> b = q) \<and>
             (\<forall>r. s \<le> r \<and> r < q \<longrightarrow> valid_port r \<and> net r = BindError))"
      using findAvailablePort_loop_Inl [of net s e "RangeError b"]
      by (simp add: isPortAvailable_invalid occ)
    also have "\<dots> \<longleftrightarrow> s \<le> b \<and> b \<le> e \<and> \<not> valid_port b \<and>
         (\<forall>q. s \<le> q \<and> q < b \<longrightarrow> valid_port q \<and> net q = BindError)"
      by blast
    finally show ?thesis using thrown by simp
  qed
  have V: "findAvailablePort net (Some s) (Some e) = Inr p \<longrightarrow> valid_port p"
    using findAvailablePort_loop_Some [of net s e p] by (simp add: ret free)
  have A: "(findAvailablePort net (Some s) (Some e) = Inr p \<longleftrightarrow>
         s \<le> p \<and> p \<le> e \<and> net p = Listening \<and> (\<forall>q. s \<le> q \<and> q < p \<longrightarrow> net q = BindError))
      \<and> (findAvailablePort net (Some s) (Some e) = Inl (NoAvailablePorts s e) \<longleftrightarrow>
         (\<forall>q. s \<le> q \<and> q \<le> e \<longrightarrow> net q = BindError))
      \<and> (\<forall>x. findAvailablePort net (Some s) (Some e) = Inl x \<longrightarrow> x = NoAvailablePorts s e)"
    if range: "0 \<le> s \<and> e \<le> 65535"
  proof -
    have v: "valid_port q" if "s \<le> q" "q \<le> e" for q
      using that range by (simp add: valid_port_def)
    have a1: "findAvailablePort net (Some s) (Some e) = Inr p \<longleftrightarrow>
         s \<le> p \<and> p \<le> e \<and> net p = Listening \<and> (\<forall>q. s \<le> q \<and> q < p \<longrightarrow> net q = BindError)"
    proof -
      have "findAvailablePort net (Some s) (Some e) = Inr p \<longleftrightarrow>
          s \<le> p \<and> p \<le> e \<and> (valid_port p \<and> net p = Listening) \<and>
          (\<forall>q. s \<le> q \<and> q < p \<longrightarrow> valid_port q \<and> net q = BindError)"
        using findAvailablePort_loop_Some [of net s e p] by (simp add: ret free occ)
      also have "\<dots> \<longleftrightarrow> s \<le> p \<and> p \<le> e \<and> net p = Listening \<and>
          (\<forall>q. s \<le> q \<and> q < p \<longrightarrow> net q = BindError)"
      proof (cases "s \<le> p \<and> p \<le> e")
        case False
        then show ?thesis by blast
      next
        case True
        have "valid_port q" if "s \<le> q \<and> q < p" for q
          using that True v [of q] by simp
        moreover have "valid_port p" using True v [of p] by simp
        ultimately show ?thesis by blast
      qed
      finally show ?thesis .
    qed
    have a2: "findAvailablePort net (Some s) (Some e) = Inl (NoAvailablePorts s e) \<longleftrightarrow>
         (\<forall>q. s \<le> q \<and> q \<le> e \<longrightarrow> net q = BindError)"
    proof -
      have "findAvailablePort net (Some s) (Some e) = Inl (NoAvailablePorts s e) \<longleftrightarrow>
          (\<forall>q. s \<le> q \<and> q \<le> e \<longrightarrow> valid_port q \<and> net q = BindError)"
        using findAvailablePort_loop_None [of net s e] by (simp add: none occ)
      also have "\<dots> \<longleftrightarrow> (\<forall>q. s \<le> q \<and> q \<le> e \<longrightarrow> net q = BindError)"
        using v by blast
      finally show ?thesis .
    qed
    have a3: "x = NoAvailablePorts s e" if "findAvailablePort net (Some s) (Some e) = Inl x" for x
    proof (cases "findAvailablePort_loop net s e")
      case (Inl y)
      then obtain q where "s \<le> q" "q \<le> e" "isPortAvailable net q = Inl y"
        using findAvailablePort_loop_Inl [of net s e y] by blast
      then show ?thesis using v [of q] by (simp add: isPortAvailable_invalid)
    next
      case (Inr r)
      with that show ?thesis
        by (auto simp: findAvailablePort_def split: option.splits)
    qed
    show ?thesis using a1 a2 a3 by blast
  qed
  have D: "findAvailablePort net None None = findAvailablePort net (Some 3000) (Some 3100)"
    by (simp add: findAvailablePort_def PORT_RANGE_START_def PORT_RANGE_END_def)
  have E: "card {PORT_RANGE_START .. PORT_RANGE_END} = 101"
    by (simp add: PORT_RANGE_START_def PORT_RANGE_END_def)
  show ?thesis
  proof (intro conjI)
    show "0 \<le> s \<and> e \<le> 65535 \<longrightarrow>
      (findAvailablePort net (Some s) (Some e) = Inr p \<longleftrightarrow>
         s \<le> p \<and> p \<le> e \<and> net p = Listening \<and> (\<forall>q. s \<le> q \<and> q < p \<longrightarrow> net q = BindError))
      \<and> (findAvailablePort net (Some s) (Some e) = Inl (NoAvailablePorts s e) \<longleftrightarrow>
         (\<forall>q. s \<le> q \<and> q \<le> e \<longrightarrow> net q = BindError))
      \<and> (\<forall>x. findAvailablePort net (Some s) (Some e) = Inl x \<longrightarrow> x = NoAvailablePorts s e)"
      using A by (rule impI)
    show "findAvailablePort net (Some s) (Some e) = Inl (RangeError b) \<longleftrightarrow>
         s \<le> b \<and> b \<le> e \<and> \<not> valid_port b \<and>
         (\<forall>q. s \<le> q \<and> q < b \<longrightarrow> valid_port q \<and> net q = BindError)"
      by (rule R)
    show "findAvailablePort net (Some s) (Some e) = Inr p \<longrightarrow> valid_port p"
      by (rule V)
    show "findAvailablePort net None None = findAvailablePort net (Some 3000) (Some 3100)"
      by (rule D)
    show "card {PORT_RANGE_START .. PORT_RANGE_END} = 101"
      by (rule E)
  qed
qed

theorem findAvailablePort_first_free_witness:
  "findAvailablePort (\<lambda>p. if p = 3002 then Listening else BindError) (Some 3000) (Some 3005) = Inr 3002
   \<and> findAvailablePort (\<lambda>p. BindError) (Some 3000) (Some 3005) = Inl (NoAvailablePorts 3000 3005)
   \<and> findAvailablePort (\<lambda>p. BindError) (Some 65534) (Some 65540) = Inl (RangeError 65536)"
proof (intro conjI)
  let ?net = "\<lambda>p::int. if p = 3002 then Listening else BindError"
  have range: "(0::int) \<le> 3000 \<and> (3005::int) \<le> 65535" by simp
  have first: "(3000::int) \<le> 3002 \<and> (3002::int) \<le> 3005 \<and> ?net 3002 = Listening \<and>
      (\<forall>q. 3000 \<le> q \<and> q < 3002 \<longrightarrow> ?net q = BindError)"
    by auto
  from findAvailablePort_first_free [of 3000 3005 ?net 3002, THEN conjunct1, rule_format, OF range,
      THEN conjunct1] first
  show "findAvailablePort ?net (Some 3000) (Some 3005) = Inr 3002"
    by (rule iffD2)
next
  have range: "(0::int) \<le> 3000 \<and> (3005::int) \<le> 65535" by simp
  have all: "\<forall>q::int. 3000 \<le> q \<and> q \<le> 3005 \<longrightarrow> (\<lambda>p. BindError) q = BindError"
    by simp
  from findAvailablePort_first_free [of 3000 3005 "\<lambda>p. BindError" 0, THEN conjunct1, rule_format,
      OF range, THEN conjunct2, THEN conjunct1] all
  show "findAvailablePort (\<lambda>p. BindError) (Some 3000) (Some 3005) = Inl (NoAvailablePorts 3000 3005)"
    by (rule iffD2)
next
  have bad: "(65534::int) \<le> 65536 \<and> (65536::int) \<le> 65540 \<and> \<not> valid_port 65536 \<and>
      (\<forall>q. 65534 \<le> q \<and> q < 65536 \<longrightarrow> valid_port q \<and> (\<lambda>p. BindError) q = BindError)"
    by (simp add: valid_port_def)
  from findAvailablePort_first_free [of 65534 65540 "\<lambda>p. BindError" 0 65536,
      THEN conjunct2, THEN conjunct1] bad
  show "findAvailablePort (\<lambda>p. BindError) (Some 65534) (Some 65540) = Inl (RangeError 65536)"
    by (rule iffD2)
qed

text \<open>
  C5 as stated fails on a range that leaves the port numbers. With every port occupied
  and the range 65535 to 65536, the scan probes 65536, \<^verbatim>\<open>server.listen\<close> throws, and
  \<^verbatim>\<open>findAvailablePort\<close> fails with that error instead of the no-port-available error.
\<close>

theorem findAvailablePort_bad_port_counterexample:
  "findAvailablePort (\<lambda>p. BindError) (Some 65535) (Some 65536) = Inl (RangeError 65536)
   \<and> findAvailablePort (\<lambda>p. BindError) (Some 65535) (Some 65536) \<noteq>
       Inl (NoAvailablePorts 65535 65536)
   \<and> isPortAvailable (\<lambda>p. BindError) 65535 = Inr False
   \<and> isPortAvailable (\<lambda>p. BindError) 65536 = Inl (RangeError 65536)"
proof -
  have a: "isPortAvailable (\<lambda>p. BindError) 65535 = Inr False"
    and b: "isPortAvailable (\<lambda>p. BindError) 65536 = Inl (RangeError 65536)"
    by (simp_all add: isPortAvailable_def valid_port_def)
  have "findAvailablePort_loop (\<lambda>p. BindError) 65535 65536 =
        findAvailablePort_loop (\<lambda>p. BindError) (65535 + 1) 65536"
    by (rule findAvailablePort_loop_next) (simp_all add: a)
  also have "\<dots> = Inl (RangeError 65536)"
    by (rule findAvailablePort_loop_throw) (simp_all add: b)
  finally have "findAvailablePort (\<lambda>p. BindError) (Some 65535) (Some 65536) = Inl (RangeError 65536)"
    by (simp add: findAvailablePort_def)
  then show ?thesis using a b by simp
qed

section \<open>The path resolver\<close>

text \<open>
  C8, as the code has it. The directories follow the convention table, where a variable
  counts as set when it holds a non-empty string: on Windows both directories are
  APPDATA, or the home directory with AppData/Roaming, followed by the application
  name; on macOS each directory is its XDG variable followed by the application name,
  or Library/Application Support/<app-name> under the home directory; elsewhere the
  configuration directory is XDG_CONFIG_HOME, or .config under the home directory, and
  the data directory is XDG_DATA_HOME, or .local/share under the home directory, each
  followed by the application name. A variable that is unset or empty gives the
  fallback.
\<close>

theorem resolvePaths_convention_table:
  "(platform w = ''win32'' \<longrightarrow>
      (\<forall>v. env w ''APPDATA'' = Some v \<and> v \<noteq> [] \<longrightarrow>
         getConfigDir w = [v, APP_NAME] \<and> getDataDir w = [v, APP_NAME]) \<and>
      (env w ''APPDATA'' = None \<or> env w ''APPDATA'' = Some [] \<longrightarrow>
         getConfigDir w = [homedir w, ''AppData'', ''Roaming'', APP_NAME] \<and>
         getDataDir w = [homedir w, ''AppData'', ''Roaming'', APP_NAME]))
   \<and> (platform w = ''darwin'' \<longrightarrow>
      (\<forall>v. env w ''XDG_CONFIG_HOME'' = Some v \<and> v \<noteq> [] \<longrightarrow> getConfigDir w = [v, APP_NAME]) \<and>
      (env w ''XDG_CONFIG_HOME'' = None \<or> env w ''XDG_CONFIG_HOME'' = Some [] \<longrightarrow>
         getConfigDir w = [homedir w, ''Library'', ''Application Support'', APP_NAME]) \<and>
      (\<forall>v. env w ''XDG_DATA_HOME'' = Some v \<and> v \<noteq> [] \<longrightarrow> getDataDir w = [v, APP_NAME]) \<and>
      (env w ''XDG_DATA_HOME'' = None \<or> env w ''XDG_DATA_HOME'' = Some [] \<longrightarrow>
         getDataDir w = [homedir w, ''Library'', ''Application Support'', APP_NAME]))
   \<and> (platform w \<noteq> ''win32'' \<and> platform w \<noteq> ''darwin'' \<longrightarrow>
      (\<forall>v. env w ''XDG_CONFIG_HOME'' = Some v \<and> v \<noteq> [] \<longrightarrow> getConfigDir w = [v, APP_NAME]) \<and>
      (env w ''XDG_CONFIG_HOME'' = None \<or> env w ''XDG_CONFIG_HOME'' = Some [] \<longrightarrow>
         getConfigDir w = [homedir w, ''.config'', APP_NAME]) \<and>
      (\<forall>v. env w ''XDG_DATA_HOME'' = Some v \<and> v \<noteq> [] \<longrightarrow> getDataDir w = [v, APP_NAME]) \<and>
      (env w ''XDG_DATA_HOME'' = None \<or> env w ''XDG_DATA_HOME'' = Some [] \<longrightarrow>
         getDataDir w = [homedir w, ''.local'', ''share'', APP_NAME]))"
proof -
  have win: "platform w = ''win32'' \<Longrightarrow> env w ''APPDATA'' = Some v \<Longrightarrow> v \<noteq> [] \<Longrightarrow>
      getConfigDir w = [v, APP_NAME] \<and> getDataDir w = [v, APP_NAME]" for v
    by (simp add: getConfigDir_def getDataDir_def env_or_def)
  have win_dflt: "platform w = ''win32'' \<Longrightarrow> env w ''APPDATA'' = None \<or> env w ''APPDATA'' = Some [] \<Longrightarrow>
      getConfigDir w = [homedir w, ''AppData'', ''Roaming'', APP_NAME] \<and>
      getDataDir w = [homedir w, ''AppData'', ''Roaming'', APP_NAME]"
    by (auto simp: getConfigDir_def getDataDir_def env_or_def)
  have mac_cfg: "platform w = ''darwin'' \<Longrightarrow> env w ''XDG_CONFIG_HOME'' = Some v \<Longrightarrow> v \<noteq> [] \<Longrightarrow>
      getConfigDir w = [v, APP_NAME]" for v
    by (simp add: getConfigDir_def)
  have mac_cfg_dflt: "platform w = ''darwin'' \<Longrightarrow>
      env w ''XDG_CONFIG_HOME'' = None \<or> env w ''XDG_CONFIG_HOME'' = Some [] \<Longrightarrow>
      getConfigDir w = [homedir w, ''Library'', ''Application Support'', APP_NAME]"
    by (auto simp: getConfigDir_def)
  have mac_data: "platform w = ''darwin'' \<Longrightarrow> env w ''XDG_DATA_HOME'' = Some v \<Longrightarrow> v \<noteq> [] \<Longrightarrow>
      getDataDir w = [v, APP_NAME]" for v
    by (simp add: getDataDir_def)
  have mac_data_dflt: "platform w = ''darwin'' \<Longrightarrow>
      env w ''XDG_DATA_HOME'' = None \<or> env w ''XDG_DATA_HOME'' = Some [] \<Longrightarrow>
      getDataDir w = [homedir w, ''Library'', ''Application Support'', APP_NAME]"
    by (auto simp: getDataDir_def)
  have oth_cfg: "platform w \<noteq> ''win32'' \<and> platform w \<noteq> ''darwin'' \<Longrightarrow>
      env w ''XDG_CONFIG_HOME'' = Some v \<Longrightarrow> v \<noteq> [] \<Longrightarrow> getConfigDir w = [v, APP_NAME]" for v
    by (simp add: getConfigDir_def env_or_def)
  have oth_cfg_dflt: "platform w \<noteq> ''win32'' \<and> platform w \<noteq> ''darwin'' \<Longrightarrow>
      env w ''XDG_CONFIG_HOME'' = None \<or> env w ''XDG_CONFIG_HOME'' = Some [] \<Longrightarrow>
      getConfigDir w = [homedir w, ''.config'', APP_NAME]"
    by (auto simp: getConfigDir_def env_or_def)
  have oth_data: "platform w \<noteq> ''win32'' \<and> platform w \<noteq> ''darwin'' \<Longrightarrow>
      env w ''XDG_DATA_HOME'' = Some v \<Longrightarrow> v \<noteq> [] \<Longrightarrow> getDataDir w = [v, APP_NAME]" for v
    by (simp add: getDataDir_def env_or_def)
  have oth_data_dflt: "platform w \<noteq> ''win32'' \<and> platform w \<noteq> ''darwin'' \<Longrightarrow>
      env w ''XDG_DATA_HOME'' = None \<or> env w ''XDG_DATA_HOME'' = Some [] \<Longrightarrow>
      getDataDir w = [homedir w, ''.local'', ''share'', APP_NAME]"
    by (auto simp: getDataDir_def env_or_def)
  show ?thesis
    using win win_dflt mac_cfg mac_cfg_dflt mac_data mac_data_dflt
      oth_cfg oth_cfg_dflt oth_data oth_data_dflt
    by blast
qed

theorem resolvePaths_convention_table_witness:
  "getConfigDir windows_world = [''C:/Users/user/AppData/Roaming'', ''google-mcp'']
   \<and> getDataDir windows_world = [''C:/Users/user/AppData/Roaming'', ''google-mcp'']
   \<and> getConfigDir mac_world_empty_xdg =
       [''/Users/user'', ''Library'', ''Application Support'', ''google-mcp'']
   \<and> getDataDir mac_world_empty_xdg =
       [''/Users/user'', ''Library'', ''Application Support'', ''google-mcp'']
   \<and> getConfigDir xdg_world = [''/cfg'', ''google-mcp'']
   \<and> getDataDir xdg_world = [''/data'', ''google-mcp'']
   \<and> getConfigDir base_world = [''/home/user'', ''.config'', ''google-mcp'']
   \<and> getDataDir base_world = [''/home/user'', ''.local'', ''share'', ''google-mcp'']"
  using resolvePaths_convention_table [of windows_world]
        resolvePaths_convention_table [of mac_world_empty_xdg]
        resolvePaths_convention_table [of xdg_world]
        resolvePaths_convention_table [of base_world]
  by (simp add: windows_world_def mac_world_empty_xdg_def xdg_world_def base_world_def APP_NAME_def)

text \<open>
  C8 as stated fails where the variable is set to the empty string: on macOS with
  \<^verbatim>\<open>XDG_CONFIG_HOME=""\<close> the override does not take precedence.
\<close>

theorem resolvePaths_empty_override_counterexample:
  "platform mac_world_empty_xdg = ''darwin''
   \<and> env mac_world_empty_xdg ''XDG_CONFIG_HOME'' = Some ''''
   \<and> getConfigDir mac_world_empty_xdg \<noteq> [''''] @ [APP_NAME]
   \<and> getConfigDir mac_world_empty_xdg =
       [homedir mac_world_empty_xdg, ''Library'', ''Application Support'', APP_NAME]"
  by (simp add: mac_world_empty_xdg_def base_world_def getConfigDir_def APP_NAME_def)

section \<open>The credential store\<close>

lemma getConfigDir_cong:
  "platform w' = platform w \<Longrightarrow> homedir w' = homedir w \<Longrightarrow> env w' = env w \<Longrightarrow>
   getConfigDir w' = getConfigDir w"
  by (simp add: getConfigDir_def split: option.splits)

lemma getDataDir_cong:
  "platform w' = platform w \<Longrightarrow> homedir w' = homedir w \<Longrightarrow> env w' = env w \<Longrightarrow>
   getDataDir w' = getDataDir w"
  by (simp add: getDataDir_def split: option.splits)

lemma mkdirSync_frame:
  assumes "mkdirSync w p m = Inr w1"
  shows "\<exists>d. w1 = w\<lparr>dirs := d\<rparr>"
    and "dirs w1 p \<noteq> None"
    and "\<And>d. dirs w d \<noteq> None \<Longrightarrow> dirs w1 d = dirs w d"
    and "\<And>d k. dirs w d = None \<Longrightarrow> dirs w1 d = Some k \<Longrightarrow> d = p \<and> k = m"
proof -
  show "\<exists>d. w1 = w\<lparr>dirs := d\<rparr>"
  proof (cases "dirs w p")
    case None
    with assms have "w1 = w\<lparr>dirs := (dirs w)(p \<mapsto> m)\<rparr>"
      by (simp add: mkdirSync_def split: if_splits)
    then show ?thesis by blast
  next
    case (Some k)
    with assms have "w1 = w"
      by (simp add: mkdirSync_def split: if_splits)
    then show ?thesis by (intro exI [of _ "dirs w"]) simp
  qed
  show "dirs w1 p \<noteq> None"
    using assms by (auto simp: mkdirSync_def split: if_splits)
  show "\<And>d. dirs w d \<noteq> None \<Longrightarrow> dirs w1 d = dirs w d"
    using assms by (auto simp: mkdirSync_def split: if_splits)
  show "\<And>d k. dirs w d = None \<Longrightarrow> dirs w1 d = Some k \<Longrightarrow> d = p \<and> k = m"
    using assms by (auto simp: mkdirSync_def split: if_splits)
qed

text \<open>
  \<^verbatim>\<open>ensureDirectoriesExist\<close> touches nothing but the directory table and its own flag;
  it keeps the directories that exist and gives mode 0700 to those it creates, which are
  among the configuration and the data directory.
\<close>

lemma ensureDirectoriesExist_frame:
  assumes "ensureDirectoriesExist w s = (w1, s1)"
  shows "(\<exists>d. w1 = w\<lparr>dirs := d\<rparr>) \<and>
         (\<exists>b. s1 = s\<lparr>directoriesInitialized := b\<rparr>) \<and>
         (\<forall>d. dirs w d \<noteq> None \<longrightarrow> dirs w1 d = dirs w d) \<and>
         (\<forall>d k. dirs w d = None \<longrightarrow> dirs w1 d = Some k \<longrightarrow>
            k = mode_0700 \<and> (d = getConfigDir w \<or> d = getDataDir w))"
proof (cases "directoriesInitialized s")
  case True
  with assms have res: "w1 = w" "s1 = s"
    by (auto simp: ensureDirectoriesExist_def)
  have "\<exists>d. w = w\<lparr>dirs := d\<rparr>"
    by (rule exI [of _ "dirs w"]) simp
  moreover have "\<exists>b. s = s\<lparr>directoriesInitialized := b\<rparr>"
    by (rule exI [of _ "directoriesInitialized s"]) simp
  ultimately show ?thesis using res by simp
next
  case flag: False
  let ?c = "if \<not> existsSync w (getConfigDir w)
            then mkdirSync w (getConfigDir w) mode_0700 else Inr w"
  have s_id: "\<exists>b. s = s\<lparr>directoriesInitialized := b\<rparr>"
    by (rule exI [of _ "directoriesInitialized s"]) simp
  show ?thesis
  proof (cases ?c)
    case (Inl e)
    with assms flag have res: "w1 = w" "s1 = s"
      by (auto simp: ensureDirectoriesExist_def)
    have "\<exists>d. w = w\<lparr>dirs := d\<rparr>"
      by (rule exI [of _ "dirs w"]) simp
    moreover have "\<exists>b. s = s\<lparr>directoriesInitialized := b\<rparr>"
      by (rule exI [of _ "directoriesInitialized s"]) simp
    ultimately show ?thesis using res by simp
  next
    case (Inr wa)
    have wa_frame: "\<exists>d. wa = w\<lparr>dirs := d\<rparr>"
    proof (cases "existsSync w (getConfigDir w)")
      case True
      with Inr have "wa = w" by simp
      then show ?thesis by (intro exI [of _ "dirs w"]) simp
    next
      case False
      with Inr show ?thesis using mkdirSync_frame(1) [of w "getConfigDir w" mode_0700 wa] by simp
    qed
    have wa_keep: "dirs wa d = dirs w d" if "dirs w d \<noteq> None" for d
      using Inr that mkdirSync_frame(3) [of w "getConfigDir w" mode_0700 wa d]
      by (auto split: if_splits)
    have wa_new: "d = getConfigDir w \<and> k = mode_0700"
      if "dirs w d = None" "dirs wa d = Some k" for d k
      using Inr that mkdirSync_frame(4) [of w "getConfigDir w" mode_0700 wa d k]
      by (auto split: if_splits)
    obtain da where wa: "wa = w\<lparr>dirs := da\<rparr>" using wa_frame by blast
    have dd: "getDataDir wa = getDataDir w"
      by (rule getDataDir_cong) (simp_all add: wa)
    let ?d = "if \<not> existsSync wa (getDataDir wa)
              then mkdirSync wa (getDataDir wa) mode_0700 else Inr wa"
    show ?thesis
    proof (cases ?d)
      case (Inl e)
      with assms flag Inr have res: "w1 = wa" "s1 = s"
        by (auto simp: ensureDirectoriesExist_def)
      have "\<exists>b. s1 = s\<lparr>directoriesInitialized := b\<rparr>"
        using res s_id by simp
      then show ?thesis using res wa_frame wa_keep wa_new by blast
    next
      case Inr2: (Inr wb)
      have wb_frame: "\<exists>d. wb = wa\<lparr>dirs := d\<rparr>"
      proof (cases "existsSync wa (getDataDir wa)")
        case True
        with Inr2 have "wb = wa" by simp
        then show ?thesis by (intro exI [of _ "dirs wa"]) simp
      next
        case False
        with Inr2 show ?thesis
          using mkdirSync_frame(1) [of wa "getDataDir wa" mode_0700 wb] by simp
      qed
      have wb_keep: "dirs wb d = dirs wa d" if "dirs wa d \<noteq> None" for d
        using Inr2 that mkdirSync_frame(3) [of wa "getDataDir wa" mode_0700 wb d]
        by (auto split: if_splits)
      have wb_new: "d = getDataDir wa \<and> k = mode_0700"
        if "dirs wa d = None" "dirs wb d = Some k" for d k
        using Inr2 that mkdirSync_frame(4) [of wa "getDataDir wa" mode_0700 wb d k]
        by (auto split: if_splits)
      from assms flag Inr Inr2 have res: "w1 = wb" "s1 = s\<lparr>directoriesInitialized := True\<rparr>"
        by (auto simp: ensureDirectoriesExist_def)
      obtain db where wb: "wb = wa\<lparr>dirs := db\<rparr>" using wb_frame by blast
      have eq: "\<exists>d. w1 = w\<lparr>dirs := d\<rparr>"
        by (rule exI [of _ db]) (simp add: res(1) wb wa)
      have sb: "\<exists>b. s1 = s\<lparr>directoriesInitialized := b\<rparr>"
        using res(2) by blast
      have keep: "dirs w1 d = dirs w d" if "dirs w d \<noteq> None" for d
        using that wa_keep [of d] wb_keep [of d] res(1) by simp
      have new: "k = mode_0700 \<and> (d = getConfigDir w \<or> d = getDataDir w)"
        if "dirs w d = None" "dirs w1 d = Some k" for d k
      proof (cases "dirs wa d")
        case None
        then show ?thesis using wb_new [of d k] that dd res(1) by simp
      next
        case (Some k')
        then have "d = getConfigDir w \<and> k' = mode_0700"
          using wa_new [of d k'] that by simp
        moreover have "dirs wb d = Some k'"
          using wb_keep [of d] Some by simp
        ultimately show ?thesis using that res(1) by simp
      qed
      show ?thesis
        using eq sb keep new by blast
    qed
  qed
qed

lemma writeFileSync_result:
  assumes "writeFileSync w p txt m = Inr w2"
  shows "\<exists>fs. w2 = w\<lparr>files := fs\<rparr>"
    and "dirs w (butlast p) \<noteq> None"
    and "\<exists>f. files w2 p = Some f \<and> content f = txt \<and> (files w p = None \<longrightarrow> fmode f = m)"
    and "\<And>q. q \<noteq> p \<Longrightarrow> files w2 q = files w q"
proof -
  from assms have w2: "w2 = w\<lparr>files := (files w)(p \<mapsto>
             (case files w p of
                None \<Rightarrow> \<lparr>content = txt, fmode = m\<rparr>
              | Some f \<Rightarrow> f\<lparr>content := txt\<rparr>))\<rparr>"
    and d: "dirs w (butlast p) \<noteq> None"
    by (auto simp: writeFileSync_def split: if_splits)
  show "\<exists>fs. w2 = w\<lparr>files := fs\<rparr>" using w2 by blast
  show "dirs w (butlast p) \<noteq> None" by (rule d)
  show "\<exists>f. files w2 p = Some f \<and> content f = txt \<and> (files w p = None \<longrightarrow> fmode f = m)"
    by (simp add: w2 split: option.splits)
  show "\<And>q. q \<noteq> p \<Longrightarrow> files w2 q = files w q"
    by (simp add: w2)
qed

text \<open>
  C9, as the code has it. When \<^verbatim>\<open>GOOGLE_CREDENTIALS_JSON\<close> (respectively
  \<^verbatim>\<open>GOOGLE_TOKENS_JSON\<close>) holds a non-empty string that does not parse,
  \<^verbatim>\<open>loadCredentials\<close> (respectively \<^verbatim>\<open>loadTokens\<close>) returns absent whatever the file
  system holds: the file source is not consulted.
\<close>

theorem malformed_env_json_yields_absent:
  "(\<forall>v e. env w ''GOOGLE_CREDENTIALS_JSON'' = Some v \<and> v \<noteq> [] \<and>
           json_parse_credentials w v = Inl e \<longrightarrow>
           loadCredentials (w\<lparr>files := fs, dirs := ds, fs_fault := ff\<rparr>) = None)
   \<and> (\<forall>v e. env w ''GOOGLE_TOKENS_JSON'' = Some v \<and> v \<noteq> [] \<and>
           json_parse_tokens w v = Inl e \<longrightarrow>
           loadTokens (w\<lparr>files := fs, dirs := ds, fs_fault := ff\<rparr>) = None)"
proof (intro conjI allI impI)
  let ?w = "w\<lparr>files := fs, dirs := ds, fs_fault := ff\<rparr>"
  fix v e
  assume a: "env w ''GOOGLE_CREDENTIALS_JSON'' = Some v \<and> v \<noteq> [] \<and>
             json_parse_credentials w v = Inl e"
  then have "truthy_str (env ?w ''GOOGLE_CREDENTIALS_JSON'')"
    by (simp add: truthy_str_def)
  moreover have "json_parse_credentials ?w v = Inl e"
    using a by simp
  ultimately show "loadCredentials ?w = None"
    using a by (simp add: loadCredentials_def)
next
  let ?w = "w\<lparr>files := fs, dirs := ds, fs_fault := ff\<rparr>"
  fix v e
  assume a: "env w ''GOOGLE_TOKENS_JSON'' = Some v \<and> v \<noteq> [] \<and>
             json_parse_tokens w v = Inl e"
  then have "truthy_str (env ?w ''GOOGLE_TOKENS_JSON'')"
    by (simp add: truthy_str_def)
  moreover have "json_parse_tokens ?w v = Inl e"
    using a by simp
  ultimately show "loadTokens ?w = None"
    using a by (simp add: loadTokens_def)
qed

theorem malformed_env_json_yields_absent_witness:
  "loadCredentials bad_env_world = None \<and> loadTokens bad_env_world = None
   \<and> files bad_env_world (TOKEN_PATH bad_env_world) \<noteq> None
   \<and> files bad_env_world (CREDENTIALS_PATH bad_env_world) \<noteq> None"
  using malformed_env_json_yields_absent
          [where w = bad_env_world and fs = "files bad_env_world" and ds = "dirs bad_env_world"
             and ff = "fs_fault bad_env_world"]
  by (simp add: bad_env_world_def with_token_file_def base_world_def TOKEN_PATH_def
      CREDENTIALS_PATH_def getDataDir_def getConfigDir_def env_or_def APP_NAME_def
      linux_data_dir_def linux_config_dir_def)

text \<open>
  C9 as stated fails at the empty string: it is a value of the variable, it is not JSON,
  and the loaders go on to the files.
\<close>

theorem empty_env_json_falls_back_counterexample:
  "env empty_env_world ''GOOGLE_CREDENTIALS_JSON'' = Some ''''
   \<and> json_parse_credentials empty_env_world '''' = Inl SyntaxError
   \<and> loadCredentials empty_env_world = Some sample_credentials
   \<and> env empty_env_world ''GOOGLE_TOKENS_JSON'' = Some ''''
   \<and> json_parse_tokens empty_env_world '''' = Inl SyntaxError
   \<and> loadTokens empty_env_world = Some sample_tokens"
  by (simp add: empty_env_world_def with_token_file_def base_world_def loadCredentials_def
      loadTokens_def truthy_str_def existsSync_def readFileSync_def TOKEN_PATH_def
      CREDENTIALS_PATH_def getDataDir_def getConfigDir_def env_or_def APP_NAME_def
      linux_data_dir_def linux_config_dir_def)

lemma last_getDataDir: "last (getDataDir w) = APP_NAME"
  by (simp add: getDataDir_def env_or_def split: option.splits)

lemma last_getConfigDir: "last (getConfigDir w) = APP_NAME"
  by (simp add: getConfigDir_def env_or_def split: option.splits)

lemma TOKEN_PATH_cong:
  "platform w' = platform w \<Longrightarrow> homedir w' = homedir w \<Longrightarrow> env w' = env w \<Longrightarrow>
   TOKEN_PATH w' = TOKEN_PATH w"
  by (simp add: TOKEN_PATH_def getDataDir_cong [of w' w])

lemma TOKEN_PATH_not_a_resolved_dir:
  "TOKEN_PATH w \<noteq> getDataDir w" "TOKEN_PATH w \<noteq> getConfigDir w"
proof -
  show "TOKEN_PATH w \<noteq> getDataDir w"
    by (simp add: TOKEN_PATH_def)
  have "last (TOKEN_PATH w) = ''tokens.json''"
    by (simp add: TOKEN_PATH_def)
  then show "TOKEN_PATH w \<noteq> getConfigDir w"
    using last_getConfigDir [of w] by (auto simp: APP_NAME_def)
qed

lemma saveTokens_skipped:
  "truthy_str (env w ''GOOGLE_TOKENS_JSON'') \<Longrightarrow> saveTokens w s t = (Inr (), w, s)"
  by (simp add: saveTokens_def)

text \<open>A normal return of \<^verbatim>\<open>saveTokens\<close> without the environment override.\<close>

lemma saveTokens_written:
  assumes "\<not> truthy_str (env w ''GOOGLE_TOKENS_JSON'')"
    and "saveTokens w s t = (Inr (), w', s')"
  shows "\<exists>w1. ensureDirectoriesExist w s = (w1, s') \<and>
           writeFileSync w1 (TOKEN_PATH w) (json_stringify_tokens w t) mode_0600 = Inr w'"
proof -
  obtain w1 s1 where e: "ensureDirectoriesExist w s = (w1, s1)"
    by (cases "ensureDirectoriesExist w s") blast
  obtain d where w1: "w1 = w\<lparr>dirs := d\<rparr>"
    using ensureDirectoriesExist_frame [OF e] by blast
  have tp: "TOKEN_PATH w1 = TOKEN_PATH w"
    by (rule TOKEN_PATH_cong) (simp_all add: w1)
  have js: "json_stringify_tokens w1 = json_stringify_tokens w"
    by (simp add: w1)
  from assms e have "writeFileSync w1 (TOKEN_PATH w1) (json_stringify_tokens w1 t) mode_0600 = Inr w'"
    and "s' = s1"
    by (auto simp: saveTokens_def split: sum.splits)
  then show ?thesis using e tp js by simp
qed

lemma saveTokens_postcondition:
  assumes "\<not> truthy_str (env w ''GOOGLE_TOKENS_JSON'')"
    and "saveTokens w s t = (Inr (), w', s')"
  shows "dirs w' (getDataDir w) \<noteq> None"
    and "\<And>d k. dirs w d = None \<Longrightarrow> dirs w' d = Some k \<Longrightarrow> k = mode_0700"
    and "\<exists>f. files w' (TOKEN_PATH w) = Some f \<and> content f = json_stringify_tokens w t \<and>
              (files w (TOKEN_PATH w) = None \<longrightarrow> fmode f = mode_0600)"
    and "\<And>p. p \<noteq> TOKEN_PATH w \<Longrightarrow> files w' p = files w p"
    and "env w' = env w \<and> platform w' = platform w \<and> homedir w' = homedir w \<and>
         fs_fault w' = fs_fault w \<and> json_parse_tokens w' = json_parse_tokens w"
proof -
  obtain w1 where e: "ensureDirectoriesExist w s = (w1, s')"
    and wr: "writeFileSync w1 (TOKEN_PATH w) (json_stringify_tokens w t) mode_0600 = Inr w'"
    using saveTokens_written [OF assms] by blast
  obtain d where w1: "w1 = w\<lparr>dirs := d\<rparr>"
    using ensureDirectoriesExist_frame [OF e] by blast
  obtain fs where w': "w' = w1\<lparr>files := fs\<rparr>"
    using writeFileSync_result(1) [OF wr] by blast
  have parent: "butlast (TOKEN_PATH w) = getDataDir w"
    by (simp add: TOKEN_PATH_def)
  show "dirs w' (getDataDir w) \<noteq> None"
    using writeFileSync_result(2) [OF wr] parent by (simp add: w')
  show "\<And>d k. dirs w d = None \<Longrightarrow> dirs w' d = Some k \<Longrightarrow> k = mode_0700"
    using ensureDirectoriesExist_frame [OF e] by (simp add: w')
  have f1: "files w1 = files w" by (simp add: w1)
  show "\<exists>f. files w' (TOKEN_PATH w) = Some f \<and> content f = json_stringify_tokens w t \<and>
              (files w (TOKEN_PATH w) = None \<longrightarrow> fmode f = mode_0600)"
    using writeFileSync_result(3) [OF wr] by (simp add: f1)
  show "\<And>p. p \<noteq> TOKEN_PATH w \<Longrightarrow> files w' p = files w p"
    using writeFileSync_result(4) [OF wr] by (simp add: f1)
  show "env w' = env w \<and> platform w' = platform w \<and> homedir w' = homedir w \<and>
         fs_fault w' = fs_fault w \<and> json_parse_tokens w' = json_parse_tokens w"
    by (simp add: w' w1)
qed

text \<open>
  Without faults, on a first call, with nothing in the way of the two directories and of
  the token file, \<^verbatim>\<open>saveTokens\<close> returns normally.
\<close>

lemma saveTokens_succeeds:
  assumes "\<not> truthy_str (env w ''GOOGLE_TOKENS_JSON'')"
    and "\<not> directoriesInitialized s"
    and "\<forall>c. \<not> fs_fault w c"
    and "files w (getConfigDir w) = None"
    and "files w (getDataDir w) = None"
    and "dirs w (TOKEN_PATH w) = None"
  shows "fst (saveTokens w s t) = Inr ()"
proof -
  let ?c = "if \<not> existsSync w (getConfigDir w)
            then mkdirSync w (getConfigDir w) mode_0700 else Inr w"
  have "\<exists>wa. ?c = Inr wa"
    using assms(3,4) by (simp add: mkdirSync_def)
  then obtain wa where ca: "?c = Inr wa" by blast
  have wa_frame: "\<exists>d. wa = w\<lparr>dirs := d\<rparr>"
  proof (cases "existsSync w (getConfigDir w)")
    case True
    with ca have "wa = w" by simp
    then show ?thesis by (intro exI [of _ "dirs w"]) simp
  next
    case False
    with ca show ?thesis using mkdirSync_frame(1) [of w "getConfigDir w" mode_0700 wa] by simp
  qed
  then obtain da where wa: "wa = w\<lparr>dirs := da\<rparr>" by blast
  have wa_new: "dirs wa p = Some k \<Longrightarrow> dirs w p = None \<Longrightarrow> p = getConfigDir w" for p k
    using ca mkdirSync_frame(4) [of w "getConfigDir w" mode_0700 wa p k]
    by (auto split: if_splits)
  have dd: "getDataDir wa = getDataDir w"
    by (rule getDataDir_cong) (simp_all add: wa)
  let ?d = "if \<not> existsSync wa (getDataDir wa)
            then mkdirSync wa (getDataDir wa) mode_0700 else Inr wa"
  have "\<exists>wb. ?d = Inr wb"
    using assms(3,5) dd by (simp add: mkdirSync_def wa)
  then obtain wb where cb: "?d = Inr wb" by blast
  have wb_frame: "\<exists>d. wb = wa\<lparr>dirs := d\<rparr>"
  proof (cases "existsSync wa (getDataDir wa)")
    case True
    with cb have "wb = wa" by simp
    then show ?thesis by (intro exI [of _ "dirs wa"]) simp
  next
    case False
    with cb show ?thesis using mkdirSync_frame(1) [of wa "getDataDir wa" mode_0700 wb] by simp
  qed
  then obtain db where wb: "wb = wa\<lparr>dirs := db\<rparr>" by blast
  have wb_data: "dirs wb (getDataDir w) \<noteq> None"
  proof (cases "existsSync wa (getDataDir wa)")
    case True
    with cb have "wb = wa" by simp
    moreover have "files wa (getDataDir w) = None" using assms(5) by (simp add: wa)
    ultimately show ?thesis using True dd by (simp add: existsSync_def)
  next
    case False
    with cb show ?thesis
      using mkdirSync_frame(2) [of wa "getDataDir wa" mode_0700 wb] dd by simp
  qed
  have wb_new: "dirs wb p = Some k \<Longrightarrow> dirs wa p = None \<Longrightarrow> p = getDataDir w" for p k
    using cb mkdirSync_frame(4) [of wa "getDataDir wa" mode_0700 wb p k] dd
    by (auto split: if_splits)
  have ens: "ensureDirectoriesExist w s = (wb, s\<lparr>directoriesInitialized := True\<rparr>)"
    using assms(2) ca cb by (simp add: ensureDirectoriesExist_def)
  have tp: "TOKEN_PATH wb = TOKEN_PATH w"
    by (rule TOKEN_PATH_cong) (simp_all add: wb wa)
  have no_dir: "dirs wb (TOKEN_PATH w) = None"
  proof (rule ccontr)
    assume "dirs wb (TOKEN_PATH w) \<noteq> None"
    then obtain k where k: "dirs wb (TOKEN_PATH w) = Some k" by blast
    show False
    proof (cases "dirs wa (TOKEN_PATH w)")
      case None
      then show False using wb_new [OF k] TOKEN_PATH_not_a_resolved_dir(1) [of w] by simp
    next
      case (Some k')
      then show False
        using wa_new [of "TOKEN_PATH w" k'] assms(6) TOKEN_PATH_not_a_resolved_dir(2) [of w]
        by simp
    qed
  qed
  have ff: "fs_fault wb = fs_fault w" by (simp add: wb wa)
  have parent: "butlast (TOKEN_PATH w) = getDataDir w"
    by (simp add: TOKEN_PATH_def)
  have "\<exists>w2. writeFileSync wb (TOKEN_PATH wb) (json_stringify_tokens wb t) mode_0600 = Inr w2"
    using assms(3) wb_data no_dir
    by (simp add: writeFileSync_def tp ff parent)
  then show ?thesis
    using assms(1) ens by (auto simp: saveTokens_def)
qed

text \<open>
  C6, as the code has it. When \<^verbatim>\<open>GOOGLE_TOKENS_JSON\<close> holds a non-empty string,
  \<^verbatim>\<open>saveTokens\<close> changes nothing: no file, no directory, no field of the object. When
  the variable is unset or empty and \<^verbatim>\<open>saveTokens\<close> returns normally, the data
  directory exists, every directory that the call created has mode 0700, the token file
  holds the serialised token set, with mode 0600 if the call created it, and no other
  file changed. It returns normally at least on a first call (flag not yet set) on which
  no file-system call faults and nothing is in the way of the directories and the file.
\<close>

theorem saveTokens_effects:
  "(\<forall>v. env w ''GOOGLE_TOKENS_JSON'' = Some v \<and> v \<noteq> [] \<longrightarrow> saveTokens w s t = (Inr (), w, s))
   \<and> ((env w ''GOOGLE_TOKENS_JSON'' = None \<or> env w ''GOOGLE_TOKENS_JSON'' = Some []) \<and>
       saveTokens w s t = (Inr (), w', s') \<longrightarrow>
         dirs w' (getDataDir w) \<noteq> None
         \<and> (\<forall>d k. dirs w d = None \<and> dirs w' d = Some k \<longrightarrow> k = mode_0700)
         \<and> (\<exists>f. files w' (TOKEN_PATH w) = Some f \<and> content f = json_stringify_tokens w t \<and>
                 (files w (TOKEN_PATH w) = None \<longrightarrow> fmode f = mode_0600))
         \<and> (\<forall>p. p \<noteq> TOKEN_PATH w \<longrightarrow> files w' p = files w p))
   \<and> ((env w ''GOOGLE_TOKENS_JSON'' = None \<or> env w ''GOOGLE_TOKENS_JSON'' = Some []) \<and>
       \<not> directoriesInitialized s \<and> (\<forall>c. \<not> fs_fault w c) \<and>
       files w (getConfigDir w) = None \<and> files w (getDataDir w) = None \<and>
       dirs w (TOKEN_PATH w) = None \<longrightarrow>
         fst (saveTokens w s t) = Inr ())"
proof (intro conjI allI impI)
  fix v
  assume "env w ''GOOGLE_TOKENS_JSON'' = Some v \<and> v \<noteq> []"
  then have "truthy_str (env w ''GOOGLE_TOKENS_JSON'')"
    by (simp add: truthy_str_def)
  then show "saveTokens w s t = (Inr (), w, s)"
    by (rule saveTokens_skipped)
next
  assume a: "(env w ''GOOGLE_TOKENS_JSON'' = None \<or> env w ''GOOGLE_TOKENS_JSON'' = Some []) \<and>
       saveTokens w s t = (Inr (), w', s')"
  then have nt: "\<not> truthy_str (env w ''GOOGLE_TOKENS_JSON'')"
    by (auto simp: truthy_str_def)
  from a have sv: "saveTokens w s t = (Inr (), w', s')" by simp
  show "dirs w' (getDataDir w) \<noteq> None"
    by (rule saveTokens_postcondition(1) [OF nt sv])
  show "\<exists>f. files w' (TOKEN_PATH w) = Some f \<and> content f = json_stringify_tokens w t \<and>
                 (files w (TOKEN_PATH w) = None \<longrightarrow> fmode f = mode_0600)"
    by (rule saveTokens_postcondition(3) [OF nt sv])
  show "k = mode_0700" if "dirs w d = None \<and> dirs w' d = Some k" for d k
    using saveTokens_postcondition(2) [OF nt sv, of d k] that by simp
  show "files w' p = files w p" if "p \<noteq> TOKEN_PATH w" for p
    using saveTokens_postcondition(4) [OF nt sv, of p] that by simp
next
  assume a: "(env w ''GOOGLE_TOKENS_JSON'' = None \<or> env w ''GOOGLE_TOKENS_JSON'' = Some []) \<and>
       \<not> directoriesInitialized s \<and> (\<forall>c. \<not> fs_fault w c) \<and>
       files w (getConfigDir w) = None \<and> files w (getDataDir w) = None \<and>
       dirs w (TOKEN_PATH w) = None"
  then have nt: "\<not> truthy_str (env w ''GOOGLE_TOKENS_JSON'')"
    by (auto simp: truthy_str_def)
  show "fst (saveTokens w s t) = Inr ()"
    using saveTokens_succeeds [OF nt, of s t] a by simp
qed

lemmas eval_defs =
  saveTokens_def ensureDirectoriesExist_def loadTokens_def loadCredentials_def truthy_str_def
  existsSync_def mkdirSync_def readFileSync_def writeFileSync_def unlinkSync_def
  TOKEN_PATH_def CREDENTIALS_PATH_def getDataDir_def getConfigDir_def env_or_def APP_NAME_def
  mode_0600_def mode_0700_def

lemmas scenario_defs =
  base_world_def fresh_session_def constructed_session_def with_token_file_def
  sample_credentials_def sample_tokens_def linux_config_dir_def linux_data_dir_def

theorem saveTokens_effects_witness:
  "saveTokens bad_env_world fresh_session sample_tokens = (Inr (), bad_env_world, fresh_session)
   \<and> fst (saveTokens bare_world fresh_session sample_tokens) = Inr ()
   \<and> dirs (fst (snd (saveTokens bare_world fresh_session sample_tokens))) linux_data_dir \<noteq> None
   \<and> (\<exists>f. files (fst (snd (saveTokens bare_world fresh_session sample_tokens)))
             (linux_data_dir @ [''tokens.json'']) = Some f \<and>
           content f = ''<tokens.json>'' \<and> fmode f = mode_0600)"
proof -
  obtain w' s' where sv: "saveTokens bare_world fresh_session sample_tokens = (Inr (), w', s')"
    by (simp add: bare_world_def eval_defs scenario_defs)
  have tp: "TOKEN_PATH bare_world = linux_data_dir @ [''tokens.json'']"
    and dd: "getDataDir bare_world = linux_data_dir"
    by (simp_all add: bare_world_def eval_defs scenario_defs)
  have b: "env bare_world ''GOOGLE_TOKENS_JSON'' = None"
    and f: "files bare_world (linux_data_dir @ [''tokens.json'']) = None"
    and j: "json_stringify_tokens bare_world sample_tokens = ''<tokens.json>''"
    by (simp_all add: bare_world_def scenario_defs)
  have a: "env bad_env_world ''GOOGLE_TOKENS_JSON'' = Some ''{not json''"
    by (simp add: bad_env_world_def scenario_defs)
  have c: "\<not> directoriesInitialized fresh_session \<and> (\<forall>c. \<not> fs_fault bare_world c) \<and>
      files bare_world (getConfigDir bare_world) = None \<and>
      files bare_world (getDataDir bare_world) = None \<and>
      dirs bare_world (TOKEN_PATH bare_world) = None"
    by (simp add: bare_world_def scenario_defs)
  have "fst (saveTokens bare_world fresh_session sample_tokens) = Inr ()"
    using saveTokens_effects [of bare_world fresh_session sample_tokens w' s',
            THEN conjunct2, THEN conjunct2] b c
    by simp
  then show ?thesis
    using saveTokens_effects [of bad_env_world fresh_session sample_tokens w' s', THEN conjunct1]
      saveTokens_effects [of bare_world fresh_session sample_tokens w' s', THEN conjunct2, THEN conjunct1]
      a b sv tp dd f j
    by simp
qed

text \<open>
  C6 as stated fails in two ways. With \<^verbatim>\<open>GOOGLE_TOKENS_JSON=""\<close> the variable is set and
  the token file is written all the same. With the variable unset, the flag of
  \<^verbatim>\<open>ensureDirectoriesExist\<close> already set and the data directory gone,
  \<^verbatim>\<open>saveTokens\<close> creates no directory and raises instead of writing.
\<close>

theorem saveTokens_counterexample:
  "env empty_tokens_var_world ''GOOGLE_TOKENS_JSON'' = Some ''''
   \<and> files empty_tokens_var_world (TOKEN_PATH empty_tokens_var_world) = None
   \<and> files (fst (snd (saveTokens empty_tokens_var_world constructed_session sample_tokens)))
        (TOKEN_PATH empty_tokens_var_world) = Some \<lparr>content = ''<tokens.json>'', fmode = mode_0600\<rparr>
   \<and> env no_data_dir_world ''GOOGLE_TOKENS_JSON'' = None
   \<and> saveTokens no_data_dir_world (constructed_session) sample_tokens =
        (Inl (FsError ''ENOENT''), no_data_dir_world, constructed_session)
   \<and> dirs no_data_dir_world (getDataDir no_data_dir_world) = None"
  by (simp add: empty_tokens_var_world_def no_data_dir_world_def eval_defs scenario_defs)

text \<open>
  C7. Without the environment override, a \<^verbatim>\<open>saveTokens\<close> that returns normally
  followed by \<^verbatim>\<open>loadTokens\<close> gives back the token set that was saved, provided the file
  can be read back and the JSON text of the token set parses to the token set.
\<close>

theorem saveTokens_loadTokens_roundtrip:
  assumes "env w ''GOOGLE_TOKENS_JSON'' = None \<or> env w ''GOOGLE_TOKENS_JSON'' = Some []"
    and "saveTokens w s t = (Inr (), w', s')"
    and "\<not> fs_fault w (ReadFileSync (TOKEN_PATH w))"
    and "json_parse_tokens w (json_stringify_tokens w t) = Inr (Some t)"
  shows "loadTokens w' = Some t"
proof -
  have nt: "\<not> truthy_str (env w ''GOOGLE_TOKENS_JSON'')"
    using assms(1) by (auto simp: truthy_str_def)
  note post = saveTokens_postcondition [OF nt assms(2)]
  have same: "env w' = env w" "platform w' = platform w" "homedir w' = homedir w"
    "fs_fault w' = fs_fault w" "json_parse_tokens w' = json_parse_tokens w"
    using post(5) by simp_all
  have tp: "TOKEN_PATH w' = TOKEN_PATH w"
    by (rule TOKEN_PATH_cong) (simp_all add: same)
  obtain f where f: "files w' (TOKEN_PATH w) = Some f" "content f = json_stringify_tokens w t"
    using post(3) by blast
  have ex: "existsSync w' (TOKEN_PATH w)"
    by (simp add: existsSync_def f(1))
  have rd: "readFileSync w' (TOKEN_PATH w) = Inr (json_stringify_tokens w t)"
    using assms(3) by (simp add: readFileSync_def same f)
  show ?thesis
    using nt ex rd assms(4) by (simp add: loadTokens_def tp same)
qed

theorem saveTokens_loadTokens_roundtrip_witness:
  "fst (saveTokens bare_world fresh_session sample_tokens) = Inr ()
   \<and> loadTokens (fst (snd (saveTokens bare_world fresh_session sample_tokens))) = Some sample_tokens"
proof -
  obtain w' s' where sv: "saveTokens bare_world fresh_session sample_tokens = (Inr (), w', s')"
    by (simp add: bare_world_def eval_defs scenario_defs)
  have "env bare_world ''GOOGLE_TOKENS_JSON'' = None \<or> env bare_world ''GOOGLE_TOKENS_JSON'' = Some []"
    and "\<not> fs_fault bare_world (ReadFileSync (TOKEN_PATH bare_world))"
    and "json_parse_tokens bare_world (json_stringify_tokens bare_world sample_tokens) =
           Inr (Some sample_tokens)"
    by (simp_all add: bare_world_def scenario_defs)
  from saveTokens_loadTokens_roundtrip [OF this(1) sv this(2) this(3)] sv
  show ?thesis by simp
qed

section \<open>The session manager\<close>

lemmas session_defs =
  initialize_def client_pair_def client_block_of_def first_redirect_def needs_refresh_def
  refreshAccessToken_def new_OAuth2_def setCredentials_def DEFAULT_REDIRECT_def
  isReady_def getClient_def

text \<open>
  The failing refresh in \<^verbatim>\<open>initialize\<close>: the result is \<open>False\<close>, the world is untouched,
  the flag is cleared, and the client keeps the token set bound before the refresh.
\<close>

lemma initialize_refresh_failed:
  assumes "loadCredentials w = Some creds"
    and "client_pair (client_block_of creds) = Some (cid, secret)"
    and "loadTokens w = Some t"
    and "needs_refresh t (now w)"
    and "refreshAccessToken w
           (setCredentials
              (new_OAuth2 cid secret (first_redirect (redirect_uris (client_block_of creds)))) t) = Inl e"
  shows "initialize w s =
           (False, w,
            s\<lparr>oauth2Client :=
                 Some (setCredentials
                   (new_OAuth2 cid secret (first_redirect (redirect_uris (client_block_of creds)))) t),
               isAuthenticated := False\<rparr>)"
  using assms by (simp add: initialize_def Let_def)

lemma initialize_true_has_client:
  assumes "initialize w s = (True, w', s')"
  shows "oauth2Client s' \<noteq> None \<and> isAuthenticated s'"
  using assms
  by (auto simp: initialize_def Let_def split: option.splits if_splits sum.splits prod.splits)

text \<open>
  C3 says that after a failed refresh of an expired token set \<^verbatim>\<open>initialize\<close> returns a
  non-authenticated result, the in-memory tokens are discarded, \<^verbatim>\<open>isReady\<close> is
  false and the token file is unchanged. The code on such an input: a token file whose
  expiry (1) lies before the clock (1000), and a provider that rejects the refresh.
  \<^verbatim>\<open>initialize\<close> returns \<open>False\<close>, the session is not ready and the file system is
  as before, but the expired token set is still bound to the client the session holds.
\<close>

theorem initialize_failed_refresh_keeps_tokens:
  "loadTokens expired_world = Some sample_tokens
   \<and> expiry_date sample_tokens = Some 1 \<and> now expired_world = 1000
   \<and> provider_refresh expired_world ''refresh'' = Inl (ProviderError ''invalid_grant'')
   \<and> fst (initialize expired_world constructed_session) = False
   \<and> fst (snd (initialize expired_world constructed_session)) = expired_world
   \<and> isReady (snd (snd (initialize expired_world constructed_session))) = False
   \<and> map_option credentials (getClient (snd (snd (initialize expired_world constructed_session)))) =
       Some (Some sample_tokens)"
  by (simp add: expired_world_def session_defs eval_defs scenario_defs)

text \<open>
  C4, as the code has it. A token set whose expiry is a non-zero time before the clock
  and that has no refresh token is never renewed by \<^verbatim>\<open>initialize\<close>: the call returns
  \<open>False\<close>, writes nothing, and leaves the session authenticated only if it was so before
  and the call changed nothing.
\<close>

theorem initialize_expired_without_refresh_token:
  assumes "loadTokens w = Some t"
    and "expiry_date t = Some e" and "e \<noteq> 0" and "e < now w"
    and "refresh_token t = None"
  shows "fst (initialize w s) = False
         \<and> fst (snd (initialize w s)) = w
         \<and> (isAuthenticated (snd (snd (initialize w s))) \<longrightarrow>
              isAuthenticated s \<and> snd (snd (initialize w s)) = s)"
proof (cases "loadCredentials w")
  case None
  then show ?thesis by (simp add: initialize_def)
next
  case (Some creds)
  show ?thesis
  proof (cases "client_pair (client_block_of creds)")
    case None
    with Some show ?thesis by (simp add: initialize_def)
  next
    case pair: (Some p)
    obtain cid secret where p: "p = (cid, secret)" by (cases p)
    have nr: "needs_refresh t (now w)"
      using assms(2,3,4) by (simp add: needs_refresh_def)
    have "refreshAccessToken w
           (setCredentials
              (new_OAuth2 cid secret (first_redirect (redirect_uris (client_block_of creds)))) t) =
          Inl (ProviderError ''No refresh token is set.'')"
      using assms(5) by (simp add: refreshAccessToken_def setCredentials_def)
    from initialize_refresh_failed [OF Some pair [unfolded p] assms(1) nr this, of s]
    show ?thesis by simp
  qed
qed

theorem initialize_expired_without_refresh_token_witness:
  "loadTokens no_refresh_world = Some (sample_tokens\<lparr>refresh_token := None\<rparr>)
   \<and> provider_refresh no_refresh_world ''refresh'' = Inr sample_tokens
   \<and> fst (initialize no_refresh_world constructed_session) = False
   \<and> \<not> isAuthenticated (snd (snd (initialize no_refresh_world constructed_session)))"
proof -
  have lt: "loadTokens no_refresh_world = Some (sample_tokens\<lparr>refresh_token := None\<rparr>)"
    by (simp add: no_refresh_world_def eval_defs scenario_defs)
  have ex: "expiry_date (sample_tokens\<lparr>refresh_token := None\<rparr>) = Some 1"
    and ne: "(1::int) \<noteq> 0" and lt1: "1 < now no_refresh_world"
    and rt: "refresh_token (sample_tokens\<lparr>refresh_token := None\<rparr>) = None"
    and pr: "provider_refresh no_refresh_world ''refresh'' = Inr sample_tokens"
    by (simp_all add: no_refresh_world_def scenario_defs)
  have na: "\<not> isAuthenticated constructed_session"
    by (simp add: constructed_session_def)
  from initialize_expired_without_refresh_token [OF lt ex ne lt1 rt, of constructed_session] lt pr na
  show ?thesis by auto
qed

text \<open>
  C4 as stated fails at expiry 0: the test \<^verbatim>\<open>tokens.expiry_date && ...\<close> takes 0 for
  "no expiry", so a token set that expired at time 0 and has no refresh token makes
  \<^verbatim>\<open>initialize\<close> authenticate.
\<close>

theorem initialize_zero_expiry_counterexample:
  "loadTokens zero_expiry_world = Some stale_tokens
   \<and> expiry_date stale_tokens = Some 0 \<and> 0 < now zero_expiry_world
   \<and> refresh_token stale_tokens = None
   \<and> fst (initialize zero_expiry_world constructed_session) = True
   \<and> isReady (snd (snd (initialize zero_expiry_world constructed_session)))"
  by (simp add: zero_expiry_world_def stale_tokens_def session_defs eval_defs scenario_defs)

text \<open>When \<^verbatim>\<open>logout\<close> raises: exactly when the token path exists and cannot be unlinked.\<close>

lemma logout_raises_iff:
  "fst (logout w s) = Inl e \<longleftrightarrow>
     existsSync w (TOKEN_PATH w) \<and> unlinkSync w (TOKEN_PATH w) = Inl e"
  by (auto simp: logout_def Let_def split: sum.splits option.splits)

lemma logout_raise_keeps_session:
  "fst (logout w s) = Inl e \<Longrightarrow> logout w s = (Inl e, w, s)"
  by (auto simp: logout_def Let_def split: sum.splits option.splits if_splits)

text \<open>
  The other operations never raise: every call that can fail sits in a \<^verbatim>\<open>try\<close>.
  \<^verbatim>\<open>initialize\<close>, \<^verbatim>\<open>setAuthCode\<close> and the accessors return plain values by their
  definitions; \<^verbatim>\<open>authenticate\<close> and \<^verbatim>\<open>initializeWithAuth\<close> never give a rejected
  promise, since the executor always finds a client.
\<close>

lemma authenticate_not_rejected: "authenticate w s \<noteq> Rejected e w' s'"
proof (cases "oauth2Client s")
  case (Some c)
  then show ?thesis
    by (auto simp: authenticate_def start_flow_def Let_def
        split: sum.splits option.splits prod.splits)
next
  case None
  obtain r w1 s1 where i: "initialize w s = (r, w1, s1)"
    by (cases "initialize w s") auto
  show ?thesis
  proof (cases r)
    case True
    with i have "oauth2Client s1 \<noteq> None"
      using initialize_true_has_client [of w s w1 s1] by simp
    with None i True show ?thesis
      by (auto simp: authenticate_def start_flow_def Let_def
          split: sum.splits option.splits prod.splits)
  next
    case False
    with None i show ?thesis
      by (auto simp: authenticate_def start_flow_def Let_def
          split: sum.splits option.splits prod.splits)
  qed
qed

lemma initializeWithAuth_not_rejected: "initializeWithAuth w s \<noteq> Rejected e w' s'"
  by (auto simp: initializeWithAuth_def authenticate_not_rejected split: prod.splits)

text \<open>
  C2 says that no public operation lets an I/O or provider error escape. The code on
  an input where \<^verbatim>\<open>logout\<close> meets one: a session authenticated from a token file that
  cannot be unlinked (the call raises EPERM). \<^verbatim>\<open>logout\<close> does not catch the error:
  the promise is rejected, and since the statements after the \<^verbatim>\<open>unlinkSync\<close> are
  skipped the session is still ready.
\<close>

theorem logout_propagates_unlink_error:
  "fst (initialize locked_token_world constructed_session) = True
   \<and> files locked_token_world (TOKEN_PATH locked_token_world) \<noteq> None
   \<and> unlinkSync locked_token_world (TOKEN_PATH locked_token_world) = Inl (FsError ''EPERM'')
   \<and> logout locked_token_world (snd (snd (initialize locked_token_world constructed_session))) =
       (Inl (FsError ''EPERM''), locked_token_world,
        snd (snd (initialize locked_token_world constructed_session)))
   \<and> isReady (snd (snd (initialize locked_token_world constructed_session)))"
  by (simp add: locked_token_world_def logout_def session_defs eval_defs scenario_defs)

text \<open>The sessions used above are those the constructor gives on their hosts.\<close>

lemma constructed_session_reachable:
  "new_GoogleOAuth base_world = (base_world, constructed_session)"
  "new_GoogleOAuth expired_world = (expired_world, constructed_session)"
  "new_GoogleOAuth zero_expiry_world = (zero_expiry_world, constructed_session)"
  "new_GoogleOAuth locked_token_world = (locked_token_world, constructed_session)"
  "new_GoogleOAuth empty_tokens_var_world = (empty_tokens_var_world, constructed_session)"
  by (simp_all add: new_GoogleOAuth_def expired_world_def zero_expiry_world_def
      locked_token_world_def empty_tokens_var_world_def eval_defs scenario_defs)

section \<open>The interactive flow\<close>

lemma string_of_int_3000: "string_of_int 3000 = ''3000''"
  by code_simp

lemma resolve_fields [simp]:
  "result (resolve b fl) = (case result fl of None \<Rightarrow> Some b | Some r \<Rightarrow> Some r)"
  "listener (resolve b fl) = listener fl"
  "responses (resolve b fl) = responses fl"
  "fsession (resolve b fl) = fsession fl"
  "fworld (resolve b fl) = fworld fl"
  by (simp_all add: resolve_def split: option.splits)

lemma server_close_fields [simp]:
  "result (server_close fl) = result fl"
  "listener (server_close fl) = Closed"
  "responses (server_close fl) = responses fl"
  "fsession (server_close fl) = fsession fl"
  "fworld (server_close fl) = fworld fl"
  by (simp_all add: server_close_def)

lemma respond_fields [simp]:
  "result (respond n fl) = result fl"
  "listener (respond n fl) = listener fl"
  "responses (respond n fl) = responses fl @ [n]"
  "fsession (respond n fl) = fsession fl"
  "fworld (respond n fl) = fworld fl"
  by (simp_all add: respond_def)

lemma callback_error_fields [simp]:
  "result (callback_error fl) = (case result fl of None \<Rightarrow> Some False | Some r \<Rightarrow> Some r)"
  "listener (callback_error fl) = Closed"
  "responses (callback_error fl) = responses fl @ [500]"
  "fsession (callback_error fl) = fsession fl"
  "fworld (callback_error fl) = fworld fl"
  by (simp_all add: callback_error_def)

lemma saveTokens_session:
  assumes "saveTokens w s t = (r, w', s')"
  shows "isAuthenticated s' = isAuthenticated s \<and> oauth2Client s' = oauth2Client s"
proof (cases "truthy_str (env w ''GOOGLE_TOKENS_JSON'')")
  case True
  with assms show ?thesis by (simp add: saveTokens_def)
next
  case False
  obtain w1 s1 where e: "ensureDirectoriesExist w s = (w1, s1)"
    by (cases "ensureDirectoriesExist w s") blast
  obtain b where s1: "s1 = s\<lparr>directoriesInitialized := b\<rparr>"
    using ensureDirectoriesExist_frame [OF e] by blast
  from assms False e have "s' = s1"
    by (auto simp: saveTokens_def split: sum.splits)
  then show ?thesis by (simp add: s1)
qed

text \<open>The promise settles at most once: no event changes a settled result.\<close>

lemma step_settled:
  assumes "result fl = Some b"
  shows "result (step fl ev) = Some b"
proof (cases ev)
  case ListeningEv
  with assms show ?thesis by (simp add: on_listening_def)
next
  case (RequestEv reqUrl)
  with assms show ?thesis
    by (simp add: on_request_def split: sum.splits option.splits)
next
  case (ExchangeSettledEv i)
  with assms show ?thesis
    by (simp add: on_exchange_settled_def Let_def split: sum.splits option.splits prod.splits)
next
  case ServerErrorEv
  with assms show ?thesis by (simp add: on_server_error_def)
next
  case TimeoutEv
  with assms show ?thesis by (simp add: on_timeout_def)
qed

lemma run_settled:
  "result fl = Some b \<Longrightarrow> result (run fl evs) = Some b"
  unfolding run_def
  by (induction evs arbitrary: fl) (simp_all add: step_settled)

text \<open>
  Inside a flow the flag \<^verbatim>\<open>isAuthenticated\<close> is set only by the success branch, which
  settles the promise in the same turn. So when the timer fires, its guard
  \<^verbatim>\<open>!this.isAuthenticated\<close> can only skip a flow that is settled already.
\<close>

lemma step_settled_if_authenticated:
  assumes "settled_if_authenticated fl"
  shows "settled_if_authenticated (step fl ev)"
proof (cases ev)
  case ListeningEv
  with assms show ?thesis by (simp add: on_listening_def settled_if_authenticated_def)
next
  case (RequestEv reqUrl)
  with assms show ?thesis
    by (auto simp: on_request_def settled_if_authenticated_def split: sum.splits option.splits)
next
  case (ExchangeSettledEv i)
  with assms show ?thesis
    by (auto simp: on_exchange_settled_def Let_def settled_if_authenticated_def
        dest: saveTokens_session split: sum.splits option.splits prod.splits)
next
  case ServerErrorEv
  with assms show ?thesis
    by (auto simp: on_server_error_def settled_if_authenticated_def split: option.splits)
next
  case TimeoutEv
  with assms show ?thesis
    by (auto simp: on_timeout_def settled_if_authenticated_def split: option.splits)
qed

lemma run_settled_if_authenticated:
  "settled_if_authenticated fl \<Longrightarrow> settled_if_authenticated (run fl evs)"
  unfolding run_def
  by (induction evs arbitrary: fl) (simp_all add: step_settled_if_authenticated)

lemma run_append: "run fl (xs @ ys) = run (run fl xs) ys"
  by (simp add: run_def)

text \<open>Once the timer has fired the promise is settled, whatever came before or comes after.\<close>

lemma settled_after_timeout:
  assumes "settled_if_authenticated fl"
  shows "result (run fl (before @ TimeoutEv # after)) \<noteq> None"
proof -
  let ?fl1 = "run fl before"
  have inv: "settled_if_authenticated ?fl1"
    using assms by (rule run_settled_if_authenticated)
  have "result (on_timeout ?fl1) \<noteq> None"
    using inv by (auto simp: on_timeout_def settled_if_authenticated_def split: option.splits)
  then obtain b where "result (step ?fl1 TimeoutEv) = Some b" by auto
  then have "result (run (step ?fl1 TimeoutEv) after) = Some b"
    by (rule run_settled)
  then show ?thesis
    by (simp add: run_append run_def)
qed

text \<open>
  Every event that settles the promise, other than the \<^verbatim>\<open>error\<close> event of the server,
  has closed the listener by then.
\<close>

lemma settling_step_closes_listener:
  assumes "result fl = None" and "result (step fl ev) = Some b" and "ev \<noteq> ServerErrorEv"
  shows "listener (step fl ev) = Closed"
proof (cases ev)
  case ListeningEv
  with assms show ?thesis by (simp add: on_listening_def)
next
  case (RequestEv reqUrl)
  with assms show ?thesis
    by (auto simp: on_request_def split: sum.splits option.splits if_splits)
next
  case (ExchangeSettledEv i)
  with assms show ?thesis
    by (auto simp: on_exchange_settled_def Let_def
        split: sum.splits option.splits prod.splits if_splits)
next
  case ServerErrorEv
  with assms show ?thesis by simp
next
  case TimeoutEv
  with assms show ?thesis by (auto simp: on_timeout_def split: if_splits)
qed

text \<open>The flow that \<^verbatim>\<open>authenticate\<close> starts is pending, unauthenticated and not yet bound.\<close>

lemma authenticate_awaiting:
  assumes "authenticate w s = Awaiting fl"
  shows "result fl = None \<and> listener fl = Binding \<and> \<not> isAuthenticated (fsession fl) \<and>
         responses fl = [] \<and> settled_if_authenticated fl"
  using assms
  by (auto simp: authenticate_def start_flow_def Let_def settled_if_authenticated_def
      split: if_splits sum.splits option.splits prod.splits)

lemmas flow_defs =
  authenticate_def start_flow_def findAvailablePort_def PORT_RANGE_START_def PORT_RANGE_END_def
  isPortAvailable_def valid_port_def generateAuthUrl_def run_def on_listening_def on_server_error_def
  on_request_def on_timeout_def Let_def

text \<open>
  C1 says that one outcome resolves the flow and that on every resolution path the
  listener is closed by then. The code on an input that takes the listener-error path:
  \<^verbatim>\<open>authenticate\<close> on a host with client credentials and no token file, the server
  starts listening, then emits \<^verbatim>\<open>error\<close>. The flow resolves to \<open>False\<close> while the
  listener is still open: the \<^verbatim>\<open>error\<close> handler is the one resolution path that does
  not call \<^verbatim>\<open>server.close()\<close>.
\<close>

theorem listener_error_resolves_with_listener_open:
  "(case authenticate base_world constructed_session of
      Awaiting fl \<Rightarrow>
        result fl = None
        \<and> result (run fl [ListeningEv, ServerErrorEv]) = Some False
        \<and> listener (run fl [ListeningEv, ServerErrorEv]) = Open
    | Returned b w s \<Rightarrow> False
    | Rejected e w s \<Rightarrow> False)"
  by (simp add: flow_defs findAvailablePort_loop_hit session_defs eval_defs scenario_defs)

text \<open>Requests that parse to another path change nothing, however many there are.\<close>

lemma off_path_requests_unchanged:
  assumes "\<forall>r \<in> set reqs. \<exists>u. url_parse (fworld fl) r = Inr u \<and> pathname u \<noteq> ''/oauth2callback''"
  shows "run fl (map RequestEv reqs) = fl"
  using assms
proof (induction reqs)
  case Nil
  show ?case by (simp add: run_def)
next
  case (Cons r rs)
  then obtain u where u: "url_parse (fworld fl) r = Inr u" "pathname u \<noteq> ''/oauth2callback''"
    by auto
  have "step fl (RequestEv r) = fl"
    using u by (simp add: on_request_def)
  moreover have "run fl (map RequestEv rs) = fl"
    using Cons by simp
  ultimately show ?case by (simp add: run_def)
qed

text \<open>
  C10, as the code has it. Requests whose URL parses to a path other than
  \<^verbatim>\<open>/oauth2callback\<close> leave the whole flow as it is, however many there are: the
  promise stays as it was, no response is written, the listener keeps its state, and
  the session and the file system are unchanged. A request whose URL does not parse
  (\<^verbatim>\<open>new URL\<close> throws) takes the \<^verbatim>\<open>catch\<close> of the handler: status 500 is written,
  the listener is closed and the promise, if still pending, resolves to \<open>False\<close>; the
  session and the file system are unchanged.
\<close>

theorem requests_off_callback_path_handled:
  "((\<forall>r \<in> set reqs. \<exists>u. url_parse (fworld fl) r = Inr u \<and> pathname u \<noteq> ''/oauth2callback'') \<longrightarrow>
      run fl (map RequestEv reqs) = fl)
   \<and> (\<forall>e. url_parse (fworld fl) req = Inl e \<longrightarrow>
        result (step fl (RequestEv req)) = (case result fl of None \<Rightarrow> Some False | Some b \<Rightarrow> Some b)
        \<and> responses (step fl (RequestEv req)) = responses fl @ [500]
        \<and> listener (step fl (RequestEv req)) = Closed
        \<and> fsession (step fl (RequestEv req)) = fsession fl
        \<and> fworld (step fl (RequestEv req)) = fworld fl)"
proof (intro conjI allI impI)
  assume "\<forall>r \<in> set reqs. \<exists>u. url_parse (fworld fl) r = Inr u \<and> pathname u \<noteq> ''/oauth2callback''"
  then show "run fl (map RequestEv reqs) = fl"
    by (rule off_path_requests_unchanged)
next
  fix e
  assume "url_parse (fworld fl) req = Inl e"
  then have s: "on_request fl req = callback_error fl"
    by (simp add: on_request_def)
  show "result (step fl (RequestEv req)) = (case result fl of None \<Rightarrow> Some False | Some b \<Rightarrow> Some b)"
    and "responses (step fl (RequestEv req)) = responses fl @ [500]"
    and "listener (step fl (RequestEv req)) = Closed"
    and "fsession (step fl (RequestEv req)) = fsession fl"
    and "fworld (step fl (RequestEv req)) = fworld fl"
    by (simp_all add: s)
qed

theorem requests_off_callback_path_handled_witness:
  "(case authenticate base_world constructed_session of
      Awaiting fl \<Rightarrow>
        url_parse (fworld fl) ''/favicon.ico'' = Inr \<lparr>pathname = ''/favicon.ico'', search_code = None\<rparr>
        \<and> run fl (map RequestEv [''/favicon.ico'', ''/favicon.ico'']) = fl
        \<and> result fl = None \<and> responses fl = []
        \<and> url_parse (fworld fl) ''//'' = Inl TypeError
        \<and> result (step fl (RequestEv ''//'')) = Some False
        \<and> responses (step fl (RequestEv ''//'')) = [500]
        \<and> listener (step fl (RequestEv ''//'')) = Closed
    | Returned b w s \<Rightarrow> False
    | Rejected e w s \<Rightarrow> False)"
proof -
  obtain fl where a: "authenticate base_world constructed_session = Awaiting fl"
    and w: "fworld fl = base_world"
    by (simp add: flow_defs findAvailablePort_loop_hit session_defs eval_defs scenario_defs)
  have p: "url_parse base_world ''/favicon.ico'' = Inr \<lparr>pathname = ''/favicon.ico'', search_code = None\<rparr>"
    and q: "url_parse base_world ''//'' = Inl TypeError"
    by (simp_all add: base_world_def)
  have h1: "\<forall>r \<in> set [''/favicon.ico'', ''/favicon.ico''].
          \<exists>u. url_parse (fworld fl) r = Inr u \<and> pathname u \<noteq> ''/oauth2callback''"
    using p w by simp
  have h2: "url_parse (fworld fl) ''//'' = Inl TypeError"
    using q w by simp
  note T = requests_off_callback_path_handled [of "[''/favicon.ico'', ''/favicon.ico'']" fl "''//''"]
  have t1: "run fl (map RequestEv [''/favicon.ico'', ''/favicon.ico'']) = fl"
    using T [THEN conjunct1] h1 by (rule mp)
  have t2: "result (step fl (RequestEv ''//'')) = (case result fl of None \<Rightarrow> Some False | Some b \<Rightarrow> Some b)
        \<and> responses (step fl (RequestEv ''//'')) = responses fl @ [500]
        \<and> listener (step fl (RequestEv ''//'')) = Closed
        \<and> fsession (step fl (RequestEv ''//'')) = fsession fl
        \<and> fworld (step fl (RequestEv ''//'')) = fworld fl"
    using T [THEN conjunct2, rule_format, OF h2] .
  from t1 t2 authenticate_awaiting [OF a] a p q w
  show ?thesis by simp
qed

text \<open>
  C10 as stated fails for a request whose target is not a URL the runtime can parse,
  such as \<^verbatim>\<open>GET //\<close>: its path is not the callback path, yet the handler answers 500,
  closes the listener and resolves the flow to \<open>False\<close>.
\<close>

theorem unparseable_request_resolves_counterexample:
  "(case authenticate base_world constructed_session of
      Awaiting fl \<Rightarrow>
        url_parse (fworld fl) ''//'' = Inl TypeError
        \<and> result (run fl [ListeningEv]) = None
        \<and> listener (run fl [ListeningEv]) = Open
        \<and> result (run fl [ListeningEv, RequestEv ''//'']) = Some False
        \<and> responses (run fl [ListeningEv, RequestEv ''//'']) = [500]
        \<and> listener (run fl [ListeningEv, RequestEv ''//'']) = Closed
    | Returned b w s \<Rightarrow> False
    | Rejected e w s \<Rightarrow> False)"
  by (simp add: flow_defs findAvailablePort_loop_hit callback_error_def resolve_def
      server_close_def respond_def session_defs eval_defs scenario_defs)

end
